theory Spec2Isabelle
  imports Main "HOL-Library.Product_Lexorder"
begin

section \<open>Strings\<close>

text \<open>
  A JavaScript string is a sequence of UTF-16 code units; a code unit is modelled as an
  integer (from 0 to 65535 in every string of the program), and \<open>length\<close> counts code
  units as \<open>String.prototype.length\<close> does.  \<open>js\<close> is the string of an ASCII literal.
\<close>

type_synonym jschar = int

type_synonym jsstring = "jschar list"

definition js :: "string \<Rightarrow> jsstring" where
  "js s = map of_char s"

abbreviation hyphen :: jschar where
  "hyphen \<equiv> 45"

definition is_lower :: "jschar \<Rightarrow> bool" where
  "is_lower c = (97 \<le> c \<and> c \<le> 122)"

definition is_digit :: "jschar \<Rightarrow> bool" where
  "is_digit c = (48 \<le> c \<and> c \<le> 57)"

text \<open>The character class \<open>[a-z0-9]\<close>.\<close>

definition is_slug_char :: "jschar \<Rightarrow> bool" where
  "is_slug_char c = (is_lower c \<or> is_digit c)"

definition is_ascii :: "jschar \<Rightarrow> bool" where
  "is_ascii c = (0 \<le> c \<and> c < 128)"

text \<open>The lower case of an ASCII code unit: \<open>A\<close> to \<open>Z\<close> move to \<open>a\<close> to \<open>z\<close>.\<close>

definition ascii_lower :: "jschar \<Rightarrow> jschar" where
  "ascii_lower c = (if 65 \<le> c \<and> c \<le> 90 then c + 32 else c)"

text \<open>
  What \<open>String.prototype.trim\<close> removes, the white space and the line terminators of
  ECMAScript: TAB, LF, VT, FF, CR, SP, U+00A0, U+1680, U+2000 to U+200A, U+2028, U+2029,
  U+202F, U+205F, U+3000 and U+FEFF.
\<close>

definition is_space :: "jschar \<Rightarrow> bool" where
  "is_space c =
     ((9 \<le> c \<and> c \<le> 13) \<or> c = 32 \<or> c = 160 \<or> c = 5760 \<or> (8192 \<le> c \<and> c \<le> 8202) \<or>
      c = 8232 \<or> c = 8233 \<or> c = 8239 \<or> c = 8287 \<or> c = 12288 \<or> c = 65279)"

definition trim :: "jsstring \<Rightarrow> jsstring" where
  "trim s = rev (dropWhile is_space (rev (dropWhile is_space s)))"

text \<open>Decimal rendering of a counter, as in the template literal \<open>`${baseSlug}-${counter}`\<close>.\<close>

definition digit_char :: "nat \<Rightarrow> jschar" where
  "digit_char d = 48 + int d"

fun string_of_nat :: "nat \<Rightarrow> jsstring" where
  "string_of_nat n =
     (if n < 10 then [digit_char n] else string_of_nat (n div 10) @ [digit_char (n mod 10)])"

declare string_of_nat.simps [simp del]

text \<open>Reading a decimal rendering back; used only to show that rendering is injective.\<close>

definition digit_val :: "jschar \<Rightarrow> nat" where
  "digit_val c = nat (c - 48)"

definition nat_of_string :: "jsstring \<Rightarrow> nat" where
  "nat_of_string s = foldl (\<lambda>a c. 10 * a + digit_val c) 0 s"

section \<open>The libraries\<close>

text \<open>An ObjectId, as an abstract value.\<close>

type_synonym oid = nat

text \<open>
  What the program takes from the language and its libraries and what is not in the
  sources:
  \<^item> \<open>castObjectId\<close>: the ObjectId a request's id string denotes, \<open>None\<close> where
    \<open>mongoose.Types.ObjectId.isValid\<close> is false and a query's cast throws;
  \<^item> \<open>joi_uri\<close>: the strings \<open>Joi.string().uri()\<close> accepts;
  \<^item> \<open>lower\<close>: \<open>String.prototype.toLowerCase\<close> on a string with a code unit outside
    ASCII (the Unicode case mapping);
  \<^item> \<open>literal_match\<close>: whether a search term of literal characters is found, whatever the
    case, in a string, when the term or the string has a code unit outside ASCII (the
    case folding of the regular-expression engine);
  \<^item> \<open>regex\<close>: for a search term that contains a regular-expression metacharacter, the
    case-insensitive matcher it compiles to, \<open>None\<close> where it does not compile.
\<close>

record lib =
  castObjectId :: "jsstring \<Rightarrow> oid option"
  joi_uri :: "jsstring \<Rightarrow> bool"
  lower :: "jsstring \<Rightarrow> jsstring"
  literal_match :: "jsstring \<Rightarrow> jsstring \<Rightarrow> bool"
  regex :: "jsstring \<Rightarrow> (jsstring \<Rightarrow> bool) option"

text \<open>\<open>String.prototype.toLowerCase\<close>: on an ASCII string it maps each code unit by
  itself.\<close>

definition toLowerCase :: "lib \<Rightarrow> jsstring \<Rightarrow> jsstring" where
  "toLowerCase L s = (if list_all is_ascii s then map ascii_lower s else lower L s)"

section \<open>Slug generation (the pre-save hook of the Model schema)\<close>

text \<open>\<open>.replace(/[^a-z0-9]+/g, '-')\<close>: the scan copies a character of \<open>[a-z0-9]\<close>; at any
  other character the pattern matches as far as it can, and the match becomes one
  hyphen.\<close>

function replace_runs :: "jsstring \<Rightarrow> jsstring" where
  "replace_runs [] = []"
| "replace_runs (c # cs) =
     (if is_slug_char c then c # replace_runs cs
      else hyphen # replace_runs (dropWhile (\<lambda>x. \<not> is_slug_char x) cs))"
  by pat_completeness auto
termination
  by (relation "measure length") (auto simp: length_dropWhile_le less_Suc_eq_le)

text \<open>
  \<open>.replace(/^-+|-+$/g, '')\<close>: at the start of the string the first alternative matches
  the hyphens there, as many as there are; at a later position the second alternative
  matches when nothing but hyphens is left; each match is removed, any other character
  is copied.  \<open>at_start\<close> tells whether the scan is at position 0.
\<close>

function strip_scan :: "bool \<Rightarrow> jsstring \<Rightarrow> jsstring" where
  "strip_scan at_start [] = []"
| "strip_scan at_start (c # cs) =
     (if c = hyphen \<and> at_start then strip_scan False (dropWhile (\<lambda>x. x = hyphen) cs)
      else if c = hyphen \<and> list_all (\<lambda>x. x = hyphen) cs then []
      else c # strip_scan False cs)"
  by pat_completeness auto
termination
  by (relation "measure (\<lambda>(b, s). length s)") (auto simp: length_dropWhile_le less_Suc_eq_le)

definition strip_hyphens :: "jsstring \<Rightarrow> jsstring" where
  "strip_hyphens s = strip_scan True s"

definition baseSlug :: "lib \<Rightarrow> jsstring \<Rightarrow> jsstring" where
  "baseSlug L name = strip_hyphens (replace_runs (toLowerCase L name))"

text \<open>The candidate \<open>`${baseSlug}-${counter}`\<close>.\<close>

definition candidate :: "jsstring \<Rightarrow> nat \<Rightarrow> jsstring" where
  "candidate base counter = base @ [hyphen] @ string_of_nat counter"

subsection \<open>Decimal rendering is injective\<close>

lemma digit_val_char: "digit_val (digit_char d) = d"
  by (simp add: digit_val_def digit_char_def)

lemma digit_char_is_digit: "d < 10 \<Longrightarrow> is_digit (digit_char d)"
  by (simp add: is_digit_def digit_char_def)

lemma nat_of_string_snoc: "nat_of_string (s @ [c]) = 10 * nat_of_string s + digit_val c"
  by (simp add: nat_of_string_def)

lemma nat_of_string_of_nat: "nat_of_string (string_of_nat n) = n"
proof (induction n rule: string_of_nat.induct)
  case (1 n)
  show ?case
  proof (cases "n < 10")
    case True
    then show ?thesis
      by (simp add: string_of_nat.simps [of n] nat_of_string_def digit_val_char)
  next
    case False
    with 1 show ?thesis
      by (simp add: string_of_nat.simps [of n] nat_of_string_snoc digit_val_char)
  qed
qed

lemma inj_string_of_nat: "inj string_of_nat"
  by (rule inj_on_inverseI [where g = nat_of_string]) (rule nat_of_string_of_nat)

lemma inj_candidate: "inj (candidate base)"
  by (auto simp: inj_def candidate_def dest: injD [OF inj_string_of_nat])

lemma string_of_nat_digits: "list_all is_digit (string_of_nat n)"
proof (induction n rule: string_of_nat.induct)
  case (1 n)
  show ?case
  proof (cases "n < 10")
    case True
    then show ?thesis
      by (simp add: string_of_nat.simps [of n] digit_char_is_digit)
  next
    case False
    with 1 show ?thesis
      by (simp add: string_of_nat.simps [of n] digit_char_is_digit)
  qed
qed

lemma string_of_nat_nonempty: "string_of_nat n \<noteq> []"
  by (subst string_of_nat.simps) simp


section \<open>Documents and storage\<close>

text \<open>
  A document of the \<open>Model\<close> collection, with the paths of \<open>modelSchema\<close>.  The type
  parameter is what \<open>uploadedBy\<close> holds: an ObjectId in storage, the populated owner in
  a public response, nothing where the path is deselected.  An optional path that is
  undefined is \<open>None\<close>.  Numbers are integers here; no route changes \<open>rating\<close>,
  \<open>reviewsCount\<close>, \<open>installsCount\<close>, \<open>trendingScore\<close> or \<open>featured\<close>, which hold what
  was stored by other means.
\<close>

record 'u listing =
  model_id :: oid
  name :: jsstring
  slug :: "jsstring option"
  shortDescription :: jsstring
  longDescription :: "jsstring option"
  category :: jsstring
  tags :: "jsstring list"
  provider :: jsstring
  pricing :: jsstring
  rating :: int
  reviewsCount :: int
  installsCount :: int
  capabilities :: "jsstring list"
  isApiAvailable :: bool
  isOpenSource :: bool
  modelType :: "jsstring option"
  externalUrl :: "jsstring option"
  iconUrl :: "jsstring option"
  screenshots :: "jsstring list"
  featured :: bool
  trendingScore :: int
  bestFor :: "jsstring list"
  features :: "jsstring list"
  examplePrompts :: "jsstring list"
  uploadedBy :: 'u
  status :: jsstring
  rejectionReason :: "jsstring option"
  createdAt :: int
  updatedAt :: int

text \<open>
  Modelled from the spec: the \<open>User\<close> schema (models/User.js) is not among the sources.
  The paths are those the auth routes read and write, and the back-reference collection
  \<open>uploadedModels\<close> of the spec's data model.
\<close>

record user =
  user_id :: oid
  firstName :: jsstring
  lastName :: jsstring
  email :: jsstring
  mobileNumber :: jsstring
  password :: jsstring
  uploadedModels :: "oid list"

record db =
  models :: "oid listing list"
  users :: "user list"

text \<open>One entry of \<open>error.details\<close>: a message the schema gives, or Joi's own message for
  an error code at a path.\<close>

datatype detail = Custom string | Default jsstring string

text \<open>
  The error responses of the model routes:
  \<^item> \<open>ValidationError\<close>: 400 "Validation error", with the messages;
  \<^item> \<open>DuplicateName\<close>: 400 "You have already uploaded a model with this name";
  \<^item> \<open>InvalidIdFormat\<close>: 400 "Invalid model ID format";
  \<^item> \<open>InvalidStatus\<close>: 400 "Invalid status. Must be: pending, approved, or rejected";
  \<^item> \<open>RejectionReasonRequired\<close>: 400 "Rejection reason is required when rejecting a model";
  \<^item> \<open>CannotEditApproved\<close>: 400 "Cannot edit an approved model. Contact support if
    changes are needed.";
  \<^item> \<open>NotFound\<close>: 404;
  \<^item> \<open>InternalServerError\<close>: 500, from the \<open>catch\<close> of each route.
\<close>

datatype error =
    ValidationError "detail list"
  | DuplicateName
  | InvalidIdFormat
  | InvalidStatus
  | RejectionReasonRequired
  | CannotEditApproved
  | NotFound
  | InternalServerError

subsection \<open>The uniqueness probe\<close>

text \<open>\<open>findOne({ slug: slug, _id: { $ne: this._id } })\<close>\<close>

definition findOne_slug :: "oid listing list \<Rightarrow> jsstring \<Rightarrow> oid \<Rightarrow> oid listing option" where
  "findOne_slug ms s self = find (\<lambda>m. slug m = Some s \<and> model_id m \<noteq> self) ms"

text \<open>The slugs held by the other documents; the loop below ends because this set is
  finite and the candidates are pairwise different.\<close>

definition taken :: "oid listing list \<Rightarrow> oid \<Rightarrow> jsstring set" where
  "taken ms self = {s. findOne_slug ms s self \<noteq> None}"

definition probe_measure :: "jsstring set \<Rightarrow> jsstring \<Rightarrow> jsstring \<Rightarrow> nat \<Rightarrow> nat" where
  "probe_measure T base s counter =
     2 * card {k. counter \<le> k \<and> candidate base k \<in> T} + (if s \<in> T then 1 else 0)"

lemma finite_taken: "finite (taken ms self)"
proof -
  have "taken ms self \<subseteq> (\<lambda>m. the (slug m)) ` set ms"
    by (force simp: taken_def findOne_slug_def find_None_iff)
  then show ?thesis
    by (rule finite_subset) simp
qed

lemma finite_cands: "finite T \<Longrightarrow> finite {k. counter \<le> k \<and> candidate base k \<in> T}"
proof -
  assume "finite T"
  then have "finite (candidate base -` T)"
    by (rule finite_vimageI) (rule inj_candidate)
  then show ?thesis
    by (rule rev_finite_subset) auto
qed

lemma probe_measure_decreases:
  assumes "finite T" and "s \<in> T"
  shows "probe_measure T base (candidate base counter) (Suc counter) < probe_measure T base s counter"
proof -
  let ?A = "{k. counter \<le> k \<and> candidate base k \<in> T}"
  let ?B = "{k. Suc counter \<le> k \<and> candidate base k \<in> T}"
  have fin: "finite ?A" "finite ?B"
    using assms(1) by (simp_all add: finite_cands)
  show ?thesis
  proof (cases "candidate base counter \<in> T")
    case True
    then have "?A = insert counter ?B"
      by (auto simp: le_Suc_eq)
    moreover have "counter \<notin> ?B"
      by simp
    ultimately have "card ?A = Suc (card ?B)"
      using fin by simp
    with assms(2) True show ?thesis
      by (simp add: probe_measure_def)
  next
    case False
    then have "?A = ?B"
      by (auto simp: le_Suc_eq) (metis Suc_leI le_neq_implies_less)
    with assms(2) False show ?thesis
      by (simp add: probe_measure_def)
  qed
qed

text \<open>
  The \<open>while (true)\<close> loop of the hook, entered with \<open>slug = baseSlug\<close> and
  \<open>counter = 1\<close>: it returns the slug it holds once no other document has it.
\<close>

function probe :: "oid listing list \<Rightarrow> oid \<Rightarrow> jsstring \<Rightarrow> jsstring \<Rightarrow> nat \<Rightarrow> jsstring" where
  "probe ms self base s counter =
     (case findOne_slug ms s self of
        None \<Rightarrow> s
      | Some existingModel \<Rightarrow> probe ms self base (candidate base counter) (Suc counter))"
  by pat_completeness auto
termination
proof (relation "measure (\<lambda>(ms, self, base, s, counter). probe_measure (taken ms self) base s counter)")
  show "wf (measure (\<lambda>(ms, self, base, s, counter). probe_measure (taken ms self) base s counter))"
    by simp
next
  fix ms :: "oid listing list" and self base s counter x
  assume "findOne_slug ms s self = Some x"
  then have "s \<in> taken ms self"
    by (simp add: taken_def)
  then show "((ms, self, base, candidate base counter, Suc counter), (ms, self, base, s, counter))
      \<in> measure (\<lambda>(ms, self, base, s, counter). probe_measure (taken ms self) base s counter)"
    by (simp add: probe_measure_decreases finite_taken)
qed

declare probe.simps [simp del]

text \<open>The setters of the \<open>slug\<close> path: \<open>trim: true\<close>, \<open>lowercase: true\<close>.\<close>

definition set_slug :: "lib \<Rightarrow> jsstring \<Rightarrow> jsstring" where
  "set_slug L s = toLowerCase L (trim s)"

text \<open>
  \<open>modelSchema.pre('save')\<close>.  \<open>name_modified\<close> is \<open>this.isModified('name')\<close>; \<open>!this.slug\<close>
  holds of an undefined and of an empty slug.
\<close>

definition no_slug :: "'u listing \<Rightarrow> bool" where
  "no_slug doc = (slug doc = None \<or> slug doc = Some [])"

definition pre_save :: "lib \<Rightarrow> oid listing list \<Rightarrow> bool \<Rightarrow> oid listing \<Rightarrow> oid listing" where
  "pre_save L ms name_modified doc =
     (if name_modified \<or> no_slug doc
      then doc\<lparr>slug := Some (set_slug L
             (probe ms (model_id doc) (baseSlug L (name doc)) (baseSlug L (name doc)) 1))\<rparr>
      else doc)"


section \<open>Payload validation (the Joi schema of the model routes)\<close>

text \<open>
  A request body: each key of the schema is absent (\<open>None\<close>) or holds a value of the
  schema's type, and \<open>p_unknown\<close> lists the other keys of the body.
\<close>

record payload =
  p_name :: "jsstring option"
  p_shortDescription :: "jsstring option"
  p_longDescription :: "jsstring option"
  p_category :: "jsstring option"
  p_tags :: "jsstring list option"
  p_provider :: "jsstring option"
  p_pricing :: "jsstring option"
  p_capabilities :: "jsstring list option"
  p_isApiAvailable :: "bool option"
  p_isOpenSource :: "bool option"
  p_modelType :: "jsstring option"
  p_externalUrl :: "jsstring option"
  p_bestFor :: "jsstring list option"
  p_features :: "jsstring list option"
  p_examplePrompts :: "jsstring list option"
  p_unknown :: "jsstring list"

text \<open>The validated \<open>value\<close>: strings trimmed, defaults filled in; a key without a default
  that the body lacks stays absent.\<close>

record mvalue =
  v_name :: jsstring
  v_shortDescription :: jsstring
  v_longDescription :: "jsstring option"
  v_category :: jsstring
  v_tags :: "jsstring list"
  v_provider :: jsstring
  v_pricing :: jsstring
  v_capabilities :: "jsstring list"
  v_isApiAvailable :: bool
  v_isOpenSource :: bool
  v_modelType :: "jsstring option"
  v_externalUrl :: "jsstring option"
  v_bestFor :: "jsstring list"
  v_features :: "jsstring list"
  v_examplePrompts :: "jsstring list"

definition categories :: "jsstring list" where
  "categories = map js
     [''chatbots'', ''image'', ''code'', ''productivity'', ''voice'',
      ''writing'', ''research'', ''agents'', ''video'', ''audio'',
      ''data-analysis'', ''language'', ''design'', ''automation'',
      ''healthcare'', ''education'', ''marketing'', ''finance'']"

definition pricings :: "jsstring list" where
  "pricings = map js [''free'', ''freemium'', ''paid'']"

definition capability_values :: "jsstring list" where
  "capability_values = map js [''text'', ''image'', ''audio'', ''video'', ''code'', ''agent'']"

definition statuses :: "jsstring list" where
  "statuses = map js [''pending'', ''approved'', ''rejected'']"

fun bindE :: "'e + 'a \<Rightarrow> ('a \<Rightarrow> 'e + 'b) \<Rightarrow> 'e + 'b" where
  "bindE (Inl e) f = Inl e"
| "bindE (Inr a) f = f a"

text \<open>\<open>Joi.string().trim().max(limit).required()\<close>, with the schema's message for
  \<open>string.empty\<close> and \<open>any.required\<close> and its message for \<open>string.max\<close>.\<close>

definition required_string :: "nat \<Rightarrow> string \<Rightarrow> string \<Rightarrow> jsstring option \<Rightarrow> detail + jsstring" where
  "required_string limit msg_required msg_max x =
     (case x of
        None \<Rightarrow> Inl (Custom msg_required)
      | Some s \<Rightarrow>
          if trim s = [] then Inl (Custom msg_required)
          else if limit < length (trim s) then Inl (Custom msg_max)
          else Inr (trim s))"

text \<open>\<open>Joi.string().trim().max(limit).allow('')\<close>\<close>

definition optional_string :: "nat \<Rightarrow> string \<Rightarrow> jsstring option \<Rightarrow> detail + jsstring option" where
  "optional_string limit msg_max x =
     (case x of
        None \<Rightarrow> Inr None
      | Some s \<Rightarrow>
          if trim s = [] then Inr (Some [])
          else if limit < length (trim s) then Inl (Custom msg_max)
          else Inr (Some (trim s)))"

text \<open>The items of \<open>Joi.array().items(Joi.string().trim().max(limit))\<close>, from index \<open>i\<close>.\<close>

fun string_items :: "string \<Rightarrow> nat \<Rightarrow> string \<Rightarrow> nat \<Rightarrow> jsstring list \<Rightarrow> detail + jsstring list" where
  "string_items path limit msg_max i [] = Inr []"
| "string_items path limit msg_max i (x # xs) =
     (if trim x = [] then Inl (Default (js path @ js ''['' @ string_of_nat i @ js '']'') ''string.empty'')
      else if limit < length (trim x) then Inl (Custom msg_max)
      else bindE (string_items path limit msg_max (Suc i) xs) (\<lambda>ys. Inr (trim x # ys)))"

definition string_array :: "string \<Rightarrow> nat \<Rightarrow> string \<Rightarrow> jsstring list option \<Rightarrow> detail + jsstring list" where
  "string_array path limit msg_max x =
     (case x of None \<Rightarrow> Inr [] | Some xs \<Rightarrow> string_items path limit msg_max 0 xs)"

text \<open>The items of \<open>Joi.array().items(Joi.string().valid(...))\<close>, from index \<open>i\<close>.\<close>

fun valid_items :: "string \<Rightarrow> jsstring list \<Rightarrow> nat \<Rightarrow> jsstring list \<Rightarrow> detail + jsstring list" where
  "valid_items path allowed i [] = Inr []"
| "valid_items path allowed i (x # xs) =
     (if x \<in> set allowed
      then bindE (valid_items path allowed (Suc i) xs) (\<lambda>ys. Inr (x # ys))
      else Inl (Default (js path @ js ''['' @ string_of_nat i @ js '']'') ''any.only''))"

definition valid_array :: "string \<Rightarrow> jsstring list \<Rightarrow> jsstring list option \<Rightarrow> detail + jsstring list" where
  "valid_array path allowed x =
     (case x of None \<Rightarrow> Inr [] | Some xs \<Rightarrow> valid_items path allowed 0 xs)"

definition category_field :: "jsstring option \<Rightarrow> detail + jsstring" where
  "category_field x =
     (case x of
        None \<Rightarrow> Inl (Custom ''Category is required'')
      | Some s \<Rightarrow>
          if s \<in> set categories then Inr s else Inl (Custom ''Please select a valid category''))"

definition pricing_field :: "jsstring option \<Rightarrow> detail + jsstring" where
  "pricing_field x =
     (case x of
        None \<Rightarrow> Inr (js ''freemium'')
      | Some s \<Rightarrow> if s \<in> set pricings then Inr s else Inl (Default (js ''pricing'') ''any.only''))"

definition boolean_field :: "bool option \<Rightarrow> detail + bool" where
  "boolean_field x = (case x of None \<Rightarrow> Inr False | Some b \<Rightarrow> Inr b)"

text \<open>\<open>Joi.string().uri().allow('')\<close>\<close>

definition uri_field :: "lib \<Rightarrow> jsstring option \<Rightarrow> detail + jsstring option" where
  "uri_field L x =
     (case x of
        None \<Rightarrow> Inr None
      | Some s \<Rightarrow>
          if s = [] \<or> joi_uri L s then Inr (Some s) else Inl (Custom ''Please enter a valid URL''))"

text \<open>A key the schema does not have is not allowed.\<close>

definition known_keys :: "jsstring list \<Rightarrow> detail + unit" where
  "known_keys ks = (case ks of [] \<Rightarrow> Inr () | k # _ \<Rightarrow> Inl (Default k ''object.unknown''))"

text \<open>
  \<open>modelSchema.validate(req.body)\<close>: the keys are checked in the schema's order and the
  first error ends the validation, so \<open>error.details\<close> has one entry.
\<close>

definition validate_fields :: "lib \<Rightarrow> payload \<Rightarrow> detail + mvalue" where
  "validate_fields L p =
     bindE (required_string 100 ''Model name is required''
              ''Model name cannot be more than 100 characters'' (p_name p)) (\<lambda>n.
     bindE (required_string 200 ''Short description is required''
              ''Short description cannot be more than 200 characters'' (p_shortDescription p)) (\<lambda>sd.
     bindE (optional_string 2000
              ''Long description cannot be more than 2000 characters'' (p_longDescription p)) (\<lambda>ld.
     bindE (category_field (p_category p)) (\<lambda>c.
     bindE (string_array ''tags'' 30
              ''Each tag cannot be more than 30 characters'' (p_tags p)) (\<lambda>ts.
     bindE (required_string 50 ''Provider is required''
              ''Provider name cannot be more than 50 characters'' (p_provider p)) (\<lambda>pr.
     bindE (pricing_field (p_pricing p)) (\<lambda>pc.
     bindE (valid_array ''capabilities'' capability_values (p_capabilities p)) (\<lambda>cs.
     bindE (boolean_field (p_isApiAvailable p)) (\<lambda>api.
     bindE (boolean_field (p_isOpenSource p)) (\<lambda>os.
     bindE (optional_string 50
              ''Model type cannot be more than 50 characters'' (p_modelType p)) (\<lambda>mt.
     bindE (uri_field L (p_externalUrl p)) (\<lambda>url.
     bindE (string_array ''bestFor'' 50
              ''Each \"best for\" item cannot be more than 50 characters'' (p_bestFor p)) (\<lambda>bf.
     bindE (string_array ''features'' 100
              ''Each feature cannot be more than 100 characters'' (p_features p)) (\<lambda>fs.
     bindE (string_array ''examplePrompts'' 200
              ''Each example prompt cannot be more than 200 characters'' (p_examplePrompts p)) (\<lambda>eps.
     bindE (known_keys (p_unknown p)) (\<lambda>_.
       Inr \<lparr>v_name = n, v_shortDescription = sd, v_longDescription = ld, v_category = c,
            v_tags = ts, v_provider = pr, v_pricing = pc, v_capabilities = cs,
            v_isApiAvailable = api, v_isOpenSource = os, v_modelType = mt,
            v_externalUrl = url, v_bestFor = bf, v_features = fs,
            v_examplePrompts = eps\<rparr>))))))))))))))))"

definition validate :: "lib \<Rightarrow> payload \<Rightarrow> detail list + mvalue" where
  "validate L p = (case validate_fields L p of Inl e \<Rightarrow> Inl [e] | Inr v \<Rightarrow> Inr v)"


section \<open>Saving a document\<close>

fun strip_prefix :: "jsstring \<Rightarrow> jsstring \<Rightarrow> jsstring option" where
  "strip_prefix [] s = Some s"
| "strip_prefix (p # ps) [] = None"
| "strip_prefix (p # ps) (c # cs) = (if p = c then strip_prefix ps cs else None)"

text \<open>The validator of \<open>externalUrl\<close>: \<open>!v || /^https?:\/\/.+/.test(v)\<close>; the dot of the
  pattern matches any code unit but a line terminator (LF, CR, U+2028, U+2029).\<close>

definition is_line_terminator :: "jschar \<Rightarrow> bool" where
  "is_line_terminator c = (c = 10 \<or> c = 13 \<or> c = 8232 \<or> c = 8233)"

definition some_char_after :: "jsstring \<Rightarrow> jsstring \<Rightarrow> bool" where
  "some_char_after pre v =
     (case strip_prefix pre v of
        Some (c # _) \<Rightarrow> \<not> is_line_terminator c
      | _ \<Rightarrow> False)"

definition url_valid :: "jsstring \<Rightarrow> bool" where
  "url_valid v =
     (v = [] \<or> some_char_after (js ''http://'') v \<or> some_char_after (js ''https://'') v)"

definition opt_all :: "('a \<Rightarrow> bool) \<Rightarrow> 'a option \<Rightarrow> bool" where
  "opt_all P x = (case x of None \<Rightarrow> True | Some a \<Rightarrow> P a)"

text \<open>\<open>this.isModified('name')\<close>: the name of a new document is modified, that of a loaded
  document when its value has changed.\<close>

definition name_modified :: "oid listing option \<Rightarrow> oid listing \<Rightarrow> bool" where
  "name_modified old d = (case old of None \<Rightarrow> True | Some prev \<Rightarrow> name prev \<noteq> name d)"

text \<open>
  The validators of \<open>modelSchema\<close>, which \<open>save()\<close> runs on every path of the document,
  changed or not: \<open>required\<close>, \<open>maxlength\<close>, \<open>enum\<close>, \<open>min\<close>, \<open>max\<close> and the validator of
  \<open>externalUrl\<close>.  (\<open>uploadedBy\<close>, which is required, is present in every document of
  the model.)
\<close>

definition validate_paths :: "oid listing \<Rightarrow> bool" where
  "validate_paths d =
     (name d \<noteq> [] \<and> length (name d) \<le> 100 \<and>
      shortDescription d \<noteq> [] \<and> length (shortDescription d) \<le> 200 \<and>
      opt_all (\<lambda>s. length s \<le> 2000) (longDescription d) \<and>
      category d \<in> set categories \<and>
      list_all (\<lambda>t. length t \<le> 30) (tags d) \<and>
      provider d \<noteq> [] \<and> length (provider d) \<le> 50 \<and>
      pricing d \<in> set pricings \<and>
      0 \<le> rating d \<and> rating d \<le> 5 \<and>
      0 \<le> reviewsCount d \<and>
      0 \<le> installsCount d \<and>
      list_all (\<lambda>c. c \<in> set capability_values) (capabilities d) \<and>
      opt_all (\<lambda>s. length s \<le> 50) (modelType d) \<and>
      opt_all url_valid (externalUrl d) \<and>
      0 \<le> trendingScore d \<and> trendingScore d \<le> 100 \<and>
      list_all (\<lambda>t. length t \<le> 50) (bestFor d) \<and>
      list_all (\<lambda>t. length t \<le> 100) (features d) \<and>
      list_all (\<lambda>t. length t \<le> 200) (examplePrompts d) \<and>
      status d \<in> set statuses)"

text \<open>\<open>timestamps: true\<close>: a new document gets both instants, a modified one a new
  \<open>updatedAt\<close>.\<close>

definition timestamps :: "int \<Rightarrow> oid listing option \<Rightarrow> oid listing \<Rightarrow> oid listing" where
  "timestamps now old d =
     (case old of
        None \<Rightarrow> d\<lparr>createdAt := now, updatedAt := now\<rparr>
      | Some prev \<Rightarrow> if d = prev then d else d\<lparr>updatedAt := now\<rparr>)"

text \<open>The unique indexes (\<open>_id\<close>, and \<open>slug\<close> by \<open>unique: true\<close>) refuse an insert that
  repeats a key, and an update that moves the slug onto another document's.\<close>

definition duplicate_key :: "oid listing list \<Rightarrow> oid listing option \<Rightarrow> oid listing \<Rightarrow> bool" where
  "duplicate_key ms old d =
     (case old of
        None \<Rightarrow> list_ex (\<lambda>m. model_id m = model_id d \<or> slug m = slug d) ms
      | Some prev \<Rightarrow>
          slug d \<noteq> slug prev \<and> list_ex (\<lambda>m. slug m = slug d \<and> model_id m \<noteq> model_id d) ms)"

fun replace_doc :: "oid listing \<Rightarrow> oid listing list \<Rightarrow> oid listing list" where
  "replace_doc d [] = []"
| "replace_doc d (m # ms) = (if model_id m = model_id d then d # ms else m # replace_doc d ms)"

text \<open>
  \<open>doc.save()\<close>: validation, the timestamps, the slug hook, the write.  \<open>old\<close> is the
  document as loaded, \<open>None\<close> for a new one.  A failure is an exception, which the route's
  \<open>catch\<close> answers with 500.
\<close>

definition save :: "lib \<Rightarrow> int \<Rightarrow> oid listing list \<Rightarrow> oid listing option \<Rightarrow> oid listing \<Rightarrow>
    error + (oid listing \<times> oid listing list)" where
  "save L now ms old d =
     (if validate_paths d
      then (let d' = pre_save L ms (name_modified old d) (timestamps now old d) in
            if duplicate_key ms old d' then Inl InternalServerError
            else Inr (d', (case old of None \<Rightarrow> ms @ [d'] | Some prev \<Rightarrow> replace_doc d' ms)))
      else Inl InternalServerError)"

section \<open>The owner's routes\<close>

definition opt_trim :: "jsstring option \<Rightarrow> jsstring option \<Rightarrow> jsstring option" where
  "opt_trim current x = (case x of None \<Rightarrow> current | Some s \<Rightarrow> Some (trim s))"

text \<open>\<open>Object.assign(model, value)\<close>, through the setters of the schema (\<open>trim: true\<close>).\<close>

definition assign :: "oid listing \<Rightarrow> mvalue \<Rightarrow> oid listing" where
  "assign m v =
     m\<lparr>name := trim (v_name v),
       shortDescription := trim (v_shortDescription v),
       longDescription := opt_trim (longDescription m) (v_longDescription v),
       category := v_category v,
       tags := map trim (v_tags v),
       provider := trim (v_provider v),
       pricing := v_pricing v,
       capabilities := v_capabilities v,
       isApiAvailable := v_isApiAvailable v,
       isOpenSource := v_isOpenSource v,
       modelType := opt_trim (modelType m) (v_modelType v),
       externalUrl := opt_trim (externalUrl m) (v_externalUrl v),
       bestFor := map trim (v_bestFor v),
       features := map trim (v_features v),
       examplePrompts := map trim (v_examplePrompts v)\<rparr>"

text \<open>A document with the defaults of the schema and nothing else.\<close>

definition default_doc :: "oid \<Rightarrow> oid \<Rightarrow> oid listing" where
  "default_doc new_id owner =
     \<lparr>model_id = new_id, name = [], slug = None, shortDescription = [],
      longDescription = None, category = [], tags = [], provider = [],
      pricing = js ''freemium'', rating = 0, reviewsCount = 0, installsCount = 0,
      capabilities = [], isApiAvailable = False, isOpenSource = False, modelType = None,
      externalUrl = None, iconUrl = None, screenshots = [], featured = False,
      trendingScore = 0, bestFor = [], features = [], examplePrompts = [],
      uploadedBy = owner, status = js ''pending'', rejectionReason = None,
      createdAt = 0, updatedAt = 0\<rparr>"

text \<open>\<open>new Model({ ...value, uploadedBy: req.user._id })\<close>\<close>

definition new_doc :: "oid \<Rightarrow> oid \<Rightarrow> mvalue \<Rightarrow> oid listing" where
  "new_doc new_id owner v = assign (default_doc new_id owner) v"

definition push_uploaded :: "oid \<Rightarrow> oid \<Rightarrow> user list \<Rightarrow> user list" where
  "push_uploaded uid mid us =
     map (\<lambda>u. if user_id u = uid then u\<lparr>uploadedModels := uploadedModels u @ [mid]\<rparr> else u) us"

definition pull_uploaded :: "oid \<Rightarrow> oid \<Rightarrow> user list \<Rightarrow> user list" where
  "pull_uploaded uid mid us =
     map (\<lambda>u. if user_id u = uid
               then u\<lparr>uploadedModels := filter (\<lambda>x. x \<noteq> mid) (uploadedModels u)\<rparr> else u) us"

text \<open>
  \<open>POST /api/models\<close>.  \<open>caller\<close> is \<open>req.user._id\<close>, the identity the middleware
  \<open>authenticateToken\<close> has resolved before the route runs (the middleware is not among
  the sources); \<open>new_id\<close> is the ObjectId the new document gets, \<open>now\<close> the clock.  The response shows some paths of the saved document,
  which is what is returned here.
\<close>

definition create_model :: "lib \<Rightarrow> int \<Rightarrow> oid \<Rightarrow> oid \<Rightarrow> db \<Rightarrow> payload \<Rightarrow> (error + oid listing) \<times> db" where
  "create_model L now new_id caller s body =
     (case validate L body of
        Inl errs \<Rightarrow> (Inl (ValidationError errs), s)
      | Inr v \<Rightarrow>
          (case find (\<lambda>m. name m = v_name v \<and> uploadedBy m = caller) (models s) of
             Some existingModel \<Rightarrow> (Inl DuplicateName, s)
           | None \<Rightarrow>
               (case save L now (models s) None (new_doc new_id caller v) of
                  Inl e \<Rightarrow> (Inl e, s)
                | Inr (d, ms') \<Rightarrow>
                    (Inr d, s\<lparr>models := ms',
                              users := push_uploaded caller (model_id d) (users s)\<rparr>))))"

text \<open>\<open>PUT /api/models/:id\<close>.  \<open>rid\<close> is \<open>req.params.id\<close>.\<close>

definition reset_rejected :: "oid listing \<Rightarrow> oid listing" where
  "reset_rejected m =
     (if status m = js ''rejected''
      then m\<lparr>status := js ''pending'', rejectionReason := None\<rparr> else m)"

definition update_model :: "lib \<Rightarrow> int \<Rightarrow> oid \<Rightarrow> db \<Rightarrow> jsstring \<Rightarrow> payload \<Rightarrow> (error + oid listing) \<times> db" where
  "update_model L now caller s rid body =
     (case castObjectId L rid of
        None \<Rightarrow> (Inl InternalServerError, s)
      | Some i \<Rightarrow>
          (case find (\<lambda>m. model_id m = i \<and> uploadedBy m = caller) (models s) of
             None \<Rightarrow> (Inl NotFound, s)
           | Some m \<Rightarrow>
               if status m = js ''approved'' then (Inl CannotEditApproved, s)
               else
                 (case validate L body of
                    Inl errs \<Rightarrow> (Inl (ValidationError errs), s)
                  | Inr v \<Rightarrow>
                      (case save L now (models s) (Some m) (reset_rejected (assign m v)) of
                         Inl e \<Rightarrow> (Inl e, s)
                       | Inr (d, ms') \<Rightarrow> (Inr d, s\<lparr>models := ms'\<rparr>)))))"

fun remove_doc :: "oid \<Rightarrow> oid listing list \<Rightarrow> oid listing list" where
  "remove_doc i [] = []"
| "remove_doc i (m # ms) = (if model_id m = i then ms else m # remove_doc i ms)"

text \<open>\<open>DELETE /api/models/:id\<close>\<close>

definition delete_model :: "lib \<Rightarrow> oid \<Rightarrow> db \<Rightarrow> jsstring \<Rightarrow> (error + unit) \<times> db" where
  "delete_model L caller s rid =
     (case castObjectId L rid of
        None \<Rightarrow> (Inl InternalServerError, s)
      | Some i \<Rightarrow>
          (case find (\<lambda>m. model_id m = i \<and> uploadedBy m = caller) (models s) of
             None \<Rightarrow> (Inl NotFound, s)
           | Some m \<Rightarrow>
               (Inr (), s\<lparr>models := remove_doc i (models s),
                          users := pull_uploaded caller i (users s)\<rparr>)))"


section \<open>The admin's status route\<close>

record status_body =
  b_status :: "jsstring option"
  b_rejectionReason :: "jsstring option"

text \<open>\<open>!rejectionReason\<close>\<close>

definition no_reason :: "jsstring option \<Rightarrow> bool" where
  "no_reason r = (r = None \<or> r = Some [])"

text \<open>The assignments to \<open>status\<close> and \<open>rejectionReason\<close>; the latter path has the setter
  \<open>trim: true\<close>.\<close>

definition set_status :: "jsstring \<Rightarrow> jsstring option \<Rightarrow> oid listing \<Rightarrow> oid listing" where
  "set_status st r m =
     (if st = js ''rejected''
      then m\<lparr>status := st, rejectionReason := map_option trim r\<rparr>
      else m\<lparr>status := st, rejectionReason := None\<rparr>)"

text \<open>\<open>PUT /api/models/admin/:id/status\<close>.  The response shows the saved document with
  its owner populated; the saved document is what is returned here.\<close>

definition admin_set_status :: "lib \<Rightarrow> int \<Rightarrow> db \<Rightarrow> jsstring \<Rightarrow> status_body \<Rightarrow> (error + oid listing) \<times> db" where
  "admin_set_status L now s rid body =
     (case b_status body of
        None \<Rightarrow> (Inl InvalidStatus, s)
      | Some st \<Rightarrow>
          if st \<notin> set statuses then (Inl InvalidStatus, s)
          else if st = js ''rejected'' \<and> no_reason (b_rejectionReason body)
          then (Inl RejectionReasonRequired, s)
          else
            (case castObjectId L rid of
               None \<Rightarrow> (Inl InternalServerError, s)
             | Some i \<Rightarrow>
                 (case find (\<lambda>m. model_id m = i) (models s) of
                    None \<Rightarrow> (Inl NotFound, s)
                  | Some m \<Rightarrow>
                      (case save L now (models s) (Some m)
                              (set_status st (b_rejectionReason body) m) of
                         Inl e \<Rightarrow> (Inl e, s)
                       | Inr (d, ms') \<Rightarrow> (Inr d, s\<lparr>models := ms'\<rparr>)))))"

section \<open>Queries\<close>

text \<open>A document with another value at \<open>uploadedBy\<close>.\<close>

definition map_uploadedBy :: "('u \<Rightarrow> 'w) \<Rightarrow> 'u listing \<Rightarrow> 'w listing" where
  "map_uploadedBy f m =
     \<lparr>model_id = model_id m, name = name m, slug = slug m,
      shortDescription = shortDescription m, longDescription = longDescription m,
      category = category m, tags = tags m, provider = provider m, pricing = pricing m,
      rating = rating m, reviewsCount = reviewsCount m, installsCount = installsCount m,
      capabilities = capabilities m, isApiAvailable = isApiAvailable m,
      isOpenSource = isOpenSource m, modelType = modelType m, externalUrl = externalUrl m,
      iconUrl = iconUrl m, screenshots = screenshots m, featured = featured m,
      trendingScore = trendingScore m, bestFor = bestFor m, features = features m,
      examplePrompts = examplePrompts m, uploadedBy = f (uploadedBy m), status = status m,
      rejectionReason = rejectionReason m, createdAt = createdAt m,
      updatedAt = updatedAt m\<rparr>"

text \<open>A user document as its paths and their values.\<close>

datatype uval = UId oid | UStr jsstring | UIds "oid list"

definition user_doc :: "user \<Rightarrow> (string \<times> uval) list" where
  "user_doc u =
     [(''_id'', UId (user_id u)), (''firstName'', UStr (firstName u)),
      (''lastName'', UStr (lastName u)), (''email'', UStr (email u)),
      (''mobileNumber'', UStr (mobileNumber u)), (''password'', UStr (password u)),
      (''uploadedModels'', UIds (uploadedModels u))]"

text \<open>\<open>.populate('uploadedBy', paths)\<close>: the owner's document with \<open>_id\<close> and the
  selected paths, \<open>None\<close> (null) where no such user is stored.\<close>

definition populate :: "user list \<Rightarrow> string list \<Rightarrow> oid \<Rightarrow> (string \<times> uval) list option" where
  "populate us paths uid =
     map_option (\<lambda>u. filter (\<lambda>kv. fst kv = ''_id'' \<or> fst kv \<in> set paths) (user_doc u))
       (find (\<lambda>u. user_id u = uid) us)"

text \<open>\<open>.select('-rejectionReason')\<close>\<close>

definition deselect_rejectionReason :: "'u listing \<Rightarrow> 'u listing" where
  "deselect_rejectionReason m = m\<lparr>rejectionReason := None\<rparr>"

text \<open>\<open>GET /api/models/my-models\<close>: the caller's documents, newest first, without
  \<open>uploadedBy\<close>.\<close>

definition my_models :: "oid \<Rightarrow> db \<Rightarrow> unit listing list" where
  "my_models caller s =
     map (map_uploadedBy (\<lambda>_. ()))
       (sort_key (\<lambda>m. - createdAt m) (filter (\<lambda>m. uploadedBy m = caller) (models s)))"

text \<open>\<open>GET /api/models/:id\<close>\<close>

definition get_model :: "lib \<Rightarrow> db \<Rightarrow> jsstring \<Rightarrow> error + (string \<times> uval) list option listing" where
  "get_model L s rid =
     (case castObjectId L rid of
        None \<Rightarrow> Inl InvalidIdFormat
      | Some i \<Rightarrow>
          (case find (\<lambda>m. model_id m = i \<and> status m = js ''approved'') (models s) of
             None \<Rightarrow> Inl NotFound
           | Some m \<Rightarrow>
               Inr (map_uploadedBy (populate (users s) [''firstName'', ''lastName'']) m)))"

subsection \<open>The public collection query\<close>

text \<open>
  \<open>req.query\<close>.  A parameter is absent (\<open>None\<close>) or a string; \<open>page\<close> and \<open>limit\<close> are
  taken as the number a string of decimal digits denotes, on which \<open>parseInt\<close> and the
  arithmetic's conversion agree.
\<close>

record list_query =
  q_category :: "jsstring option"
  q_pricing :: "jsstring option"
  q_page :: "nat option"
  q_limit :: "nat option"
  q_search :: "jsstring option"

fun starts_with :: "'a list \<Rightarrow> 'a list \<Rightarrow> bool" where
  "starts_with [] s = True"
| "starts_with (p # ps) [] = False"
| "starts_with (p # ps) (c # cs) = (p = c \<and> starts_with ps cs)"

fun contains :: "'a list \<Rightarrow> 'a list \<Rightarrow> bool" where
  "contains pat [] = (pat = [])"
| "contains pat (c # cs) = (starts_with pat (c # cs) \<or> contains pat cs)"

text \<open>Whether \<open>pat\<close> occurs in \<open>s\<close> when the case of the ASCII letters is set aside.\<close>

definition ci_contains :: "jsstring \<Rightarrow> jsstring \<Rightarrow> bool" where
  "ci_contains pat s = contains (map ascii_lower pat) (map ascii_lower s)"

text \<open>The characters that are not literals in a regular expression.\<close>

definition regex_meta :: "jsstring" where
  "regex_meta = js (CHR 0x5C # ''^$.|?*+()[]{}'')"

definition is_literal :: "jsstring \<Rightarrow> bool" where
  "is_literal pat = list_all (\<lambda>c. c \<notin> set regex_meta) pat"

text \<open>
  \<open>{ $regex: search, $options: 'i' }\<close> and \<open>new RegExp(search, 'i')\<close>: a term of literal
  characters is found wherever it occurs, whatever the case.  Between an ASCII term and
  an ASCII string the case that is set aside is that of the letters \<open>A\<close> to \<open>Z\<close>; with a
  code unit outside ASCII on either side the case folding is the library's, and so is any
  term that is not of literal characters.
\<close>

definition literal_matcher :: "lib \<Rightarrow> jsstring \<Rightarrow> jsstring \<Rightarrow> bool" where
  "literal_matcher L pat x =
     (if list_all is_ascii pat \<and> list_all is_ascii x then ci_contains pat x
      else literal_match L pat x)"

definition search_matcher :: "lib \<Rightarrow> jsstring \<Rightarrow> (jsstring \<Rightarrow> bool) option" where
  "search_matcher L pat = (if is_literal pat then Some (literal_matcher L pat) else regex L pat)"

text \<open>A parameter that is given: neither absent nor the empty string.\<close>

definition given :: "jsstring option \<Rightarrow> bool" where
  "given x = (case x of None \<Rightarrow> False | Some v \<Rightarrow> v \<noteq> [])"

text \<open>The \<open>filter\<close> object, as a predicate on documents; \<open>matcher\<close> is the compiled search
  term when there is one.\<close>

definition matches_filter :: "list_query \<Rightarrow> (jsstring \<Rightarrow> bool) option \<Rightarrow> oid listing \<Rightarrow> bool" where
  "matches_filter q matcher m =
     (status m = js ''approved'' \<and>
      (if given (q_category q) \<and> q_category q \<noteq> Some (js ''all'')
       then Some (category m) = q_category q else True) \<and>
      (if given (q_pricing q) \<and> q_pricing q \<noteq> Some (js ''all'')
       then Some (pricing m) = q_pricing q else True) \<and>
      (case matcher of
         None \<Rightarrow> True
       | Some r \<Rightarrow> r (name m) \<or> r (shortDescription m) \<or> list_ex r (tags m)))"

record 'a page =
  pg_models :: "'a list"
  currentPage :: nat
  totalPages :: "nat option"
  totalModels :: nat
  hasNext :: bool
  hasPrev :: bool

definition page_of :: "list_query \<Rightarrow> nat" where
  "page_of q = (case q_page q of None \<Rightarrow> 1 | Some n \<Rightarrow> n)"

definition limit_of :: "list_query \<Rightarrow> nat" where
  "limit_of q = (case q_limit q of None \<Rightarrow> 20 | Some n \<Rightarrow> n)"

text \<open>\<open>Math.ceil(totalModels / limit)\<close> for a positive limit.\<close>

definition ceil_div :: "nat \<Rightarrow> nat \<Rightarrow> nat" where
  "ceil_div a b = (a + b - 1) div b"

text \<open>
  The window and the pagination record for the documents found, in the order of the sort.
  \<^item> \<open>.skip((page - 1) * limit)\<close> with page 0 and a positive limit is a negative skip, which
    the query refuses: the \<open>catch\<close> answers 500.
  \<^item> \<open>.limit(0)\<close> is no limit; the quotient \<open>totalModels / 0\<close> is then not a number that
    JSON has (\<open>totalPages = None\<close>), and \<open>page < totalPages\<close> is true when it is
    Infinity (some document found) and false when it is NaN.
\<close>

definition paginate :: "list_query \<Rightarrow> 'a list \<Rightarrow> error + 'a page" where
  "paginate q docs =
     (let page = page_of q; limit = limit_of q in
      if limit = 0
      then Inr \<lparr>pg_models = docs, currentPage = page, totalPages = None,
                totalModels = length docs, hasNext = (0 < length docs),
                hasPrev = (1 < page)\<rparr>
      else if page = 0 then Inl InternalServerError
      else Inr \<lparr>pg_models = take limit (drop ((page - 1) * limit) docs),
                currentPage = page,
                totalPages = Some (ceil_div (length docs) limit),
                totalModels = length docs,
                hasNext = (page < ceil_div (length docs) limit),
                hasPrev = (1 < page)\<rparr>)"

definition map_page :: "('a \<Rightarrow> 'b) \<Rightarrow> 'a page \<Rightarrow> 'b page" where
  "map_page f pg =
     \<lparr>pg_models = map f (pg_models pg), currentPage = currentPage pg,
      totalPages = totalPages pg, totalModels = totalModels pg, hasNext = hasNext pg,
      hasPrev = hasPrev pg\<rparr>"

text \<open>The search term of the query, compiled: \<open>None\<close> where the term does not compile
  (the constructor throws), \<open>Some None\<close> where no term is given.\<close>

definition compile_search :: "lib \<Rightarrow> jsstring option \<Rightarrow> (jsstring \<Rightarrow> bool) option option" where
  "compile_search L x =
     (case x of
        None \<Rightarrow> Some None
      | Some t \<Rightarrow> if t = [] then Some None else map_option Some (search_matcher L t))"

text \<open>\<open>.sort({ featured: -1, trendingScore: -1, createdAt: -1 })\<close>, as an ascending key;
  the sort keeps the stored order of documents with equal keys.\<close>

definition public_order :: "oid listing \<Rightarrow> bool \<times> int \<times> int" where
  "public_order m = (\<not> featured m, - trendingScore m, - createdAt m)"

text \<open>\<open>.populate('uploadedBy', 'firstName lastName')\<close> and
  \<open>.select('-rejectionReason')\<close>\<close>

definition public_view :: "user list \<Rightarrow> oid listing \<Rightarrow> (string \<times> uval) list option listing" where
  "public_view us m =
     deselect_rejectionReason (map_uploadedBy (populate us [''firstName'', ''lastName'']) m)"

text \<open>The documents the filter of the public query finds.\<close>

definition found_models :: "db \<Rightarrow> list_query \<Rightarrow> (jsstring \<Rightarrow> bool) option \<Rightarrow> oid listing list" where
  "found_models s q matcher = filter (matches_filter q matcher) (models s)"

text \<open>\<open>GET /api/models\<close>\<close>

definition list_models :: "lib \<Rightarrow> db \<Rightarrow> list_query \<Rightarrow> error + (string \<times> uval) list option listing page" where
  "list_models L s q =
     (case compile_search L (q_search q) of
        None \<Rightarrow> Inl InternalServerError
      | Some matcher \<Rightarrow>
          (case paginate q (sort_key public_order (found_models s q matcher)) of
             Inl e \<Rightarrow> Inl e
           | Inr pg \<Rightarrow> Inr (map_page (public_view (users s)) pg)))"

section \<open>The specification's notions\<close>

text \<open>
  The base slug as the specification words it: the name is lower-cased, each maximal run
  of characters outside \<open>[a-z0-9]\<close> is replaced by one hyphen, and the hyphens at the two
  ends are stripped.
\<close>

text \<open>The maximal runs of a list: two neighbours are in the same run exactly when \<open>P\<close>
  gives them the same value.\<close>

fun runs :: "('a \<Rightarrow> bool) \<Rightarrow> 'a list \<Rightarrow> 'a list list" where
  "runs P [] = []"
| "runs P [x] = [[x]]"
| "runs P (x # y # ys) =
     (if P x = P y then (x # hd (runs P (y # ys))) # tl (runs P (y # ys))
      else [x] # runs P (y # ys))"

text \<open>The characters of the class \<open>[a-z0-9]\<close>, one by one.\<close>

definition in_class :: "jschar \<Rightarrow> bool" where
  "in_class c = (c \<in> set (js ''abcdefghijklmnopqrstuvwxyz0123456789''))"

definition spec_collapse :: "jsstring \<Rightarrow> jsstring" where
  "spec_collapse s =
     concat (map (\<lambda>r. if in_class (hd r) then r else js ''-'') (runs in_class s))"

definition spec_strip :: "jsstring \<Rightarrow> jsstring" where
  "spec_strip s = rev (dropWhile (\<lambda>c. c = hyphen) (rev (dropWhile (\<lambda>c. c = hyphen) s)))"

definition spec_base :: "lib \<Rightarrow> jsstring \<Rightarrow> jsstring" where
  "spec_base L nm = spec_strip (spec_collapse (toLowerCase L nm))"

text \<open>
  The slug as the specification words it: the slugs of the other listings are probed;
  the slug is the base slug when none of them has it, and otherwise the first of
  \<open>base-1\<close>, \<open>base-2\<close>, ... that none of them has.
\<close>

definition other_slugs :: "oid listing list \<Rightarrow> oid \<Rightarrow> jsstring set" where
  "other_slugs ms self = {s. \<exists>m \<in> set ms. model_id m \<noteq> self \<and> slug m = Some s}"

definition spec_slug :: "lib \<Rightarrow> jsstring set \<Rightarrow> jsstring \<Rightarrow> jsstring" where
  "spec_slug L others nm =
     (if spec_base L nm \<notin> others then spec_base L nm
      else spec_base L nm @ js ''-'' @
             string_of_nat
               (LEAST k. 1 \<le> k \<and> spec_base L nm @ js ''-'' @ string_of_nat k \<notin> others))"

text \<open>The shape \<open>^[a-z0-9]+(-[a-z0-9]+)*$\<close>; the flag tells whether the character before was
  of \<open>[a-z0-9]\<close>.\<close>

fun shape :: "bool \<Rightarrow> jsstring \<Rightarrow> bool" where
  "shape prev [] = prev"
| "shape prev (c # cs) =
     (if is_slug_char c then shape True cs else c = hyphen \<and> prev \<and> shape False cs)"

definition slug_shape :: "jsstring \<Rightarrow> bool" where
  "slug_shape s = shape False s"

text \<open>The store invariant of the specification, as far as the identifiers go: no two listings
  share an id, and no two share a slug.\<close>

definition store_ok :: "db \<Rightarrow> bool" where
  "store_ok s = (distinct (map model_id (models s)) \<and> distinct (map slug (models s)))"

text \<open>
  The condition of the public query in words: the listing is approved; a category
  filter that is given and is not \<open>all\<close> is the listing's category, and likewise for
  pricing; a search term that is given occurs, in any case, in the name, in the short
  description or in one of the tags.  For an ASCII term and an ASCII string, to occur in
  any case is to occur once the letters \<open>A\<close> to \<open>Z\<close> of both are lowered; with a code unit
  outside ASCII on either side, it is what the case folding of the regular-expression
  engine makes of it.
\<close>

definition in_any_case :: "lib \<Rightarrow> jsstring \<Rightarrow> jsstring \<Rightarrow> bool" where
  "in_any_case L t x =
     (if list_all is_ascii t \<and> list_all is_ascii x
      then (\<exists>pre post. map ascii_lower x = pre @ map ascii_lower t @ post)
      else literal_match L t x)"

definition query_match :: "lib \<Rightarrow> list_query \<Rightarrow> oid listing \<Rightarrow> bool" where
  "query_match L q m =
     (status m = js ''approved'' \<and>
      (\<forall>c. q_category q = Some c \<and> c \<noteq> [] \<and> c \<noteq> js ''all'' \<longrightarrow> category m = c) \<and>
      (\<forall>p. q_pricing q = Some p \<and> p \<noteq> [] \<and> p \<noteq> js ''all'' \<longrightarrow> pricing m = p) \<and>
      (\<forall>t. q_search q = Some t \<and> t \<noteq> [] \<longrightarrow>
         in_any_case L t (name m) \<or> in_any_case L t (shortDescription m) \<or>
         (\<exists>g \<in> set (tags m). in_any_case L t g)))"

text \<open>The window of a page: everything for the limit 0, otherwise \<open>limit\<close> entries from
  \<open>(page - 1) * limit\<close> on.\<close>

definition window :: "list_query \<Rightarrow> 'a list \<Rightarrow> 'a list" where
  "window q xs =
     (if limit_of q = 0 then xs
      else take (limit_of q) (drop ((page_of q - 1) * limit_of q) xs))"

text \<open>Two notions for the proofs about slugs: the characters a slug is made of, and strings
  without two hyphens in a row.\<close>

definition slug_or_hyphen :: "jschar \<Rightarrow> bool" where
  "slug_or_hyphen c = (is_slug_char c \<or> c = hyphen)"

definition no_double :: "jsstring \<Rightarrow> bool" where
  "no_double s = (\<not> (\<exists>pre post. s = pre @ [hyphen, hyphen] @ post))"

section \<open>Sample data\<close>

text \<open>
  A stand-in for the libraries, for running the routes on concrete requests: an id is 24
  hexadecimal digits, a URI starts with a scheme of the three below, a string with a code
  unit outside ASCII is lowered and searched like an ASCII one, and no search term with a
  metacharacter compiles.
\<close>

definition hex_digit :: "jschar \<Rightarrow> nat option" where
  "hex_digit c =
     (if 48 \<le> c \<and> c \<le> 57 then Some (nat (c - 48))
      else if 97 \<le> c \<and> c \<le> 102 then Some (nat (c - 87))
      else if 65 \<le> c \<and> c \<le> 70 then Some (nat (c - 55))
      else None)"

fun hex_value :: "nat \<Rightarrow> jsstring \<Rightarrow> nat option" where
  "hex_value acc [] = Some acc"
| "hex_value acc (c # cs) =
     (case hex_digit c of
        None \<Rightarrow> None
      | Some d \<Rightarrow> hex_value (16 * acc + d) cs)"

definition sample_lib :: lib where
  "sample_lib =
     \<lparr>castObjectId = (\<lambda>s. if length s = 24 then hex_value 0 s else None),
      joi_uri = (\<lambda>s. starts_with (js ''http://'') s \<or> starts_with (js ''https://'') s \<or>
                      starts_with (js ''ftp://'') s),
      lower = map ascii_lower,
      literal_match = ci_contains,
      regex = (\<lambda>pat. None)\<rparr>"

text \<open>Two users; an approved, a rejected and a pending listing; the ids that denote them.\<close>

definition alice :: user where
  "alice = \<lparr>user_id = 7, firstName = js ''Alice'', lastName = js ''Ames'',
            email = js ''alice@example.com'', mobileNumber = js ''9876543210'',
            password = js ''secret1'', uploadedModels = [1, 2]\<rparr>"

definition bob :: user where
  "bob = \<lparr>user_id = 8, firstName = js ''Bob'', lastName = js ''Burns'',
          email = js ''bob@example.com'', mobileNumber = js ''9876543211'',
          password = js ''secret2'', uploadedModels = [3]\<rparr>"

definition doc1 :: "oid listing" where
  "doc1 = (default_doc 1 7)
     \<lparr>name := js ''Bot X'', slug := Some (js ''bot-x''), shortDescription := js ''fast inference'',
      category := js ''chatbots'', tags := [js ''reasoning''], provider := js ''Acme'',
      status := js ''approved'', createdAt := 10, updatedAt := 10\<rparr>"

definition doc2 :: "oid listing" where
  "doc2 = (default_doc 2 7)
     \<lparr>name := js ''Painter'', slug := Some (js ''painter''), shortDescription := js ''draws pictures'',
      category := js ''image'', provider := js ''Acme'', pricing := js ''paid'',
      status := js ''rejected'', rejectionReason := Some (js ''too niche''),
      createdAt := 20, updatedAt := 25\<rparr>"

definition doc3 :: "oid listing" where
  "doc3 = (default_doc 3 8)
     \<lparr>name := js ''Helper'', slug := Some (js ''helper''), shortDescription := js ''answers mail'',
      category := js ''productivity'', provider := js ''Burns Ltd'',
      createdAt := 30, updatedAt := 30\<rparr>"

definition sample_db :: db where
  "sample_db = \<lparr>models = [doc1, doc2, doc3], users = [alice, bob]\<rparr>"

definition id1 :: jsstring where "id1 = js ''000000000000000000000001''"

definition id2 :: jsstring where "id2 = js ''000000000000000000000002''"

definition id3 :: jsstring where "id3 = js ''000000000000000000000003''"

text \<open>A body with the required keys, what validation makes of it, and a body with no key.\<close>

definition sample_body :: payload where
  "sample_body =
     \<lparr>p_name = Some (js ''Painter 2''), p_shortDescription = Some (js ''draws better pictures''),
      p_longDescription = None, p_category = Some (js ''image''), p_tags = None,
      p_provider = Some (js ''Acme''), p_pricing = None, p_capabilities = None,
      p_isApiAvailable = None, p_isOpenSource = None, p_modelType = None,
      p_externalUrl = None, p_bestFor = None, p_features = None,
      p_examplePrompts = None, p_unknown = []\<rparr>"

definition sample_value :: mvalue where
  "sample_value =
     \<lparr>v_name = js ''Painter 2'', v_shortDescription = js ''draws better pictures'',
      v_longDescription = None, v_category = js ''image'', v_tags = [], v_provider = js ''Acme'',
      v_pricing = js ''freemium'', v_capabilities = [], v_isApiAvailable = False,
      v_isOpenSource = False, v_modelType = None, v_externalUrl = None, v_bestFor = [],
      v_features = [], v_examplePrompts = []\<rparr>"

definition empty_body :: payload where
  "empty_body =
     \<lparr>p_name = None, p_shortDescription = None, p_longDescription = None,
      p_category = None, p_tags = None, p_provider = None, p_pricing = None,
      p_capabilities = None, p_isApiAvailable = None, p_isOpenSource = None,
      p_modelType = None, p_externalUrl = None, p_bestFor = None, p_features = None,
      p_examplePrompts = None, p_unknown = []\<rparr>"


definition doc3_edited :: "oid listing" where
  "doc3_edited = doc3
     \<lparr>name := js ''Painter 2'', slug := Some (js ''painter-2''),
      shortDescription := js ''draws better pictures'', category := js ''image'',
      provider := js ''Acme'', updatedAt := 50\<rparr>"

text \<open>A second listing named "Bot X", by the second user.\<close>

definition botx_body :: payload where
  "botx_body = sample_body\<lparr>p_name := Some (js ''Bot X'')\<rparr>"

definition doc4 :: "oid listing" where
  "doc4 = (default_doc 4 8)
     \<lparr>name := js ''Bot X'', slug := Some (js ''bot-x-1''),
      shortDescription := js ''draws better pictures'', category := js ''image'',
      provider := js ''Acme'', createdAt := 60, updatedAt := 60\<rparr>"

definition db4 :: db where
  "db4 = \<lparr>models = [doc1, doc2, doc3, doc4],
           users = [alice, bob\<lparr>uploadedModels := [3, 4]\<rparr>]\<rparr>"

text \<open>Two listings whose names have neither a letter nor a digit.\<close>

definition bang_body :: payload where
  "bang_body = sample_body\<lparr>p_name := Some (js ''!!!'')\<rparr>"

definition query_body :: payload where
  "query_body = sample_body\<lparr>p_name := Some (js ''???'')\<rparr>"

definition bang_doc :: "oid listing" where
  "bang_doc = (default_doc 4 8)
     \<lparr>name := js ''!!!'', slug := Some [],
      shortDescription := js ''draws better pictures'', category := js ''image'',
      provider := js ''Acme'', createdAt := 60, updatedAt := 60\<rparr>"

definition query_doc :: "oid listing" where
  "query_doc = (default_doc 5 7)
     \<lparr>name := js ''???'', slug := Some (js ''-1''),
      shortDescription := js ''draws better pictures'', category := js ''image'',
      provider := js ''Acme'', createdAt := 70, updatedAt := 70\<rparr>"

definition db_bang :: db where
  "db_bang = \<lparr>models = [doc1, doc2, doc3, bang_doc],
              users = [alice, bob\<lparr>uploadedModels := [3, 4]\<rparr>]\<rparr>"

definition db_query :: db where
  "db_query = \<lparr>models = [doc1, doc2, doc3, bang_doc, query_doc],
               users = [alice\<lparr>uploadedModels := [1, 2, 5]\<rparr>, bob\<lparr>uploadedModels := [3, 4]\<rparr>]\<rparr>"

text \<open>Bodies of the admin's status route, and the sample listings after a status change.\<close>

definition archive_body :: status_body where
  "archive_body = \<lparr>b_status = Some (js ''archived''), b_rejectionReason = None\<rparr>"

definition reject_empty :: status_body where
  "reject_empty = \<lparr>b_status = Some (js ''rejected''), b_rejectionReason = Some []\<rparr>"

definition reject_niche :: status_body where
  "reject_niche = \<lparr>b_status = Some (js ''rejected''), b_rejectionReason = Some (js ''too niche'')\<rparr>"

definition reject_padded :: status_body where
  "reject_padded = \<lparr>b_status = Some (js ''rejected''), b_rejectionReason = Some (js '' too niche '')\<rparr>"

definition approve_body :: status_body where
  "approve_body = \<lparr>b_status = Some (js ''approved''), b_rejectionReason = None\<rparr>"

definition doc3_rejected :: "oid listing" where
  "doc3_rejected = doc3\<lparr>status := js ''rejected'', rejectionReason := Some (js ''too niche''),
     updatedAt := 50\<rparr>"

definition doc2_approved :: "oid listing" where
  "doc2_approved = doc2\<lparr>status := js ''approved'', rejectionReason := None, updatedAt := 50\<rparr>"

text \<open>Public queries, and the page the sample store answers them with.\<close>

definition all_query :: list_query where
  "all_query = \<lparr>q_category = Some (js ''all''), q_pricing = None, q_page = None, q_limit = None,
     q_search = None\<rparr>"

definition search_query :: "jsstring \<Rightarrow> list_query" where
  "search_query t = \<lparr>q_category = Some (js ''chatbots''), q_pricing = Some (js ''all''), q_page = None,
     q_limit = None, q_search = Some t\<rparr>"

definition doc1_public :: "(string \<times> uval) list option listing" where
  "doc1_public = map_uploadedBy
     (\<lambda>_. Some [(''_id'', UId 7), (''firstName'', UStr (js ''Alice'')), (''lastName'', UStr (js ''Ames''))])
     doc1"

definition page1 :: "(string \<times> uval) list option listing page" where
  "page1 = \<lparr>pg_models = [doc1_public], currentPage = 1, totalPages = Some 1, totalModels = 1,
     hasNext = False, hasPrev = False\<rparr>"

text \<open>A store of \<open>n\<close> approved listings, and the query for one page of \<open>n\<close> entries.\<close>

definition numbered_doc :: "nat \<Rightarrow> oid listing" where
  "numbered_doc i = doc1\<lparr>model_id := i, name := candidate (js ''Bot'') i,
     slug := Some (candidate (js ''bot'') i), createdAt := int i\<rparr>"

definition many_db :: "nat \<Rightarrow> db" where
  "many_db n = \<lparr>models = map numbered_doc [0 ..< n], users = [alice]\<rparr>"

definition limit_query :: "nat \<Rightarrow> list_query" where
  "limit_query n = \<lparr>q_category = None, q_pricing = None, q_page = None, q_limit = Some n,
     q_search = None\<rparr>"

section \<open>Lookups in a collection\<close>

lemma same_id_same_doc:
  "distinct (map model_id ms) \<Longrightarrow> m \<in> set ms \<Longrightarrow> x \<in> set ms \<Longrightarrow>
   model_id x = model_id m \<Longrightarrow> x = m"
  by (meson distinct_map inj_on_eq_iff)

lemma find_owned:
  assumes "distinct (map model_id ms)" and "m \<in> set ms" and "P m"
  shows "find (\<lambda>x. model_id x = model_id m \<and> P x) ms = Some m"
proof -
  from assms(2,3) obtain x where x: "find (\<lambda>x. model_id x = model_id m \<and> P x) ms = Some x"
    by (cases "find (\<lambda>x. model_id x = model_id m \<and> P x) ms") (auto simp: find_None_iff)
  then have "x \<in> set ms" "model_id x = model_id m"
    by (auto simp: find_Some_iff)
  with assms(1,2) have "x = m"
    by (rule_tac same_id_same_doc)
  with x show ?thesis by simp
qed

lemma find_not_owned:
  assumes "distinct (map model_id ms)" and "m \<in> set ms" and "\<not> P m"
  shows "find (\<lambda>x. model_id x = model_id m \<and> P x) ms = None"
  using assms by (auto simp: find_None_iff dest: same_id_same_doc)

lemma find_replace_doc:
  "x \<in> set ms \<Longrightarrow> model_id x = model_id d \<Longrightarrow>
   find (\<lambda>y. model_id y = model_id d) (replace_doc d ms) = Some d"
  by (induction ms) auto

section \<open>What the steps of a save keep\<close>

lemma pre_save_keeps [simp]:
  "model_id (pre_save L ms b d) = model_id d"
  "name (pre_save L ms b d) = name d"
  "status (pre_save L ms b d) = status d"
  "rejectionReason (pre_save L ms b d) = rejectionReason d"
  "uploadedBy (pre_save L ms b d) = uploadedBy d"
  by (simp_all add: pre_save_def)

lemma timestamps_keeps [simp]:
  "model_id (timestamps now old d) = model_id d"
  "name (timestamps now old d) = name d"
  "slug (timestamps now old d) = slug d"
  "status (timestamps now old d) = status d"
  "rejectionReason (timestamps now old d) = rejectionReason d"
  "uploadedBy (timestamps now old d) = uploadedBy d"
  by (simp_all add: timestamps_def split: option.split)

lemma assign_keeps [simp]:
  "model_id (assign m v) = model_id m"
  "slug (assign m v) = slug m"
  "status (assign m v) = status m"
  "rejectionReason (assign m v) = rejectionReason m"
  "uploadedBy (assign m v) = uploadedBy m"
  "name (assign m v) = trim (v_name v)"
  by (simp_all add: assign_def)

lemma reset_rejected_keeps [simp]:
  "model_id (reset_rejected m) = model_id m"
  "slug (reset_rejected m) = slug m"
  "name (reset_rejected m) = name m"
  "uploadedBy (reset_rejected m) = uploadedBy m"
  by (simp_all add: reset_rejected_def)

lemma set_status_keeps [simp]:
  "model_id (set_status st r m) = model_id m"
  "name (set_status st r m) = name m"
  "slug (set_status st r m) = slug m"
  "uploadedBy (set_status st r m) = uploadedBy m"
  "status (set_status st r m) = st"
  "rejectionReason (set_status st r m) = (if st = js ''rejected'' then map_option trim r else None)"
  by (simp_all add: set_status_def)

lemma map_uploadedBy_keeps [simp]:
  "model_id (map_uploadedBy f m) = model_id m"
  "rejectionReason (map_uploadedBy f m) = rejectionReason m"
  "status (map_uploadedBy f m) = status m"
  by (simp_all add: map_uploadedBy_def)

lemma save_loaded:
  assumes "save L now ms (Some m) d = Inr (d', ms')"
  shows "d' = pre_save L ms (name m \<noteq> name d) (timestamps now (Some m) d)"
    and "ms' = replace_doc d' ms"
  using assms
  by (auto simp: save_def Let_def name_modified_def split: if_splits)

lemma save_new:
  assumes "save L now ms None d = Inr (d', ms')"
  shows "d' = pre_save L ms True (timestamps now None d)"
    and "ms' = ms @ [d']"
    and "\<not> duplicate_key ms None d'"
  using assms
  by (auto simp: save_def Let_def name_modified_def split: if_splits)

section \<open>The probe loop and the specification's slug\<close>

lemma taken_other_slugs: "taken ms self = other_slugs ms self"
  by (auto simp: taken_def other_slugs_def findOne_slug_def find_None_iff)

lemma findOne_slug_None: "findOne_slug ms s self = None \<longleftrightarrow> s \<notin> taken ms self"
  by (simp add: taken_def)

lemma probe_least:
  "probe ms self base s c =
     (if s \<notin> taken ms self then s
      else candidate base (LEAST k. c \<le> k \<and> candidate base k \<notin> taken ms self))"
proof (induction ms self base s c rule: probe.induct)
  case (1 ms self base s c)
  let ?T = "taken ms self"
  show ?case
  proof (cases "findOne_slug ms s self")
    case None
    then show ?thesis
      by (simp add: probe.simps [of ms self base s c] findOne_slug_None [symmetric])
  next
    case (Some x)
    then have s: "s \<in> ?T"
      by (simp add: taken_def)
    have step: "probe ms self base s c = probe ms self base (candidate base c) (Suc c)"
      using Some by (simp add: probe.simps [of ms self base s c])
    show ?thesis
    proof (cases "candidate base c \<in> ?T")
      case False
      then have "(LEAST k. c \<le> k \<and> candidate base k \<notin> ?T) = c"
        by (intro Least_equality) auto
      with False s step 1 [OF Some] show ?thesis
        by simp
    next
      case True
      then have "(\<lambda>k. c \<le> k \<and> candidate base k \<notin> ?T) = (\<lambda>k. Suc c \<le> k \<and> candidate base k \<notin> ?T)"
        by (auto simp: fun_eq_iff Suc_le_eq le_less)
      with True s step 1 [OF Some] show ?thesis
        by simp
    qed
  qed
qed

lemma free_candidate:
  assumes "finite T"
  shows "\<exists>k. c \<le> k \<and> candidate base k \<notin> T"
proof (rule ccontr)
  assume "\<not> ?thesis"
  then have "candidate base ` {c..} \<subseteq> T"
    by auto
  with assms have "finite (candidate base ` {c..})"
    by (rule rev_finite_subset)
  then have "finite {c..}"
    by (rule finite_imageD) (rule inj_on_subset [OF inj_candidate], simp)
  then show False
    by (simp add: infinite_Ici)
qed

lemma probe_not_taken: "probe ms self base s c \<notin> taken ms self"
proof -
  obtain k where "c \<le> k \<and> candidate base k \<notin> taken ms self"
    using free_candidate [OF finite_taken] by blast
  then have "candidate base (LEAST k. c \<le> k \<and> candidate base k \<notin> taken ms self) \<notin> taken ms self"
    by (rule LeastI [where P = "\<lambda>k. c \<le> k \<and> candidate base k \<notin> taken ms self", THEN conjunct2])
  then show ?thesis
    by (simp add: probe_least)
qed

subsection \<open>The base slug of the hook is the base slug of the specification\<close>

lemma runs_hd:
  "runs P (y # ys) \<noteq> [] \<and> hd (runs P (y # ys)) \<noteq> [] \<and> hd (hd (runs P (y # ys))) = y"
  by (cases ys) simp_all

lemma runs_concat: "concat (runs P s) = s"
proof (induction P s rule: runs.induct)
  case (3 P x y ys)
  have "concat (runs P (y # ys)) = hd (runs P (y # ys)) @ concat (tl (runs P (y # ys)))"
    using runs_hd [of P y ys] by (cases "runs P (y # ys)") simp_all
  with 3 show ?case
    by (cases "P x = P y") simp_all
qed simp_all

lemma in_class_eq: "in_class c = is_slug_char c"
  unfolding in_class_def is_slug_char_def is_lower_def is_digit_def js_def
  by simp presburger

lemma spec_collapse_alt:
  "spec_collapse s =
     concat (map (\<lambda>r. if is_slug_char (hd r) then r else [hyphen]) (runs is_slug_char s))"
proof -
  have a: "in_class = is_slug_char"
    by (simp add: fun_eq_iff in_class_eq)
  have b: "js ''-'' = [hyphen]"
    by (simp add: js_def)
  show ?thesis
    unfolding spec_collapse_def a b ..
qed

lemma spec_candidate: "base @ js ''-'' @ string_of_nat k = candidate base k"
  by (simp add: candidate_def js_def)

lemma spec_collapse_Cons:
  "spec_collapse (y # ys) =
     (if is_slug_char y then hd (runs is_slug_char (y # ys)) else [hyphen]) @
     concat (map (\<lambda>r. if is_slug_char (hd r) then r else [hyphen])
       (tl (runs is_slug_char (y # ys))))"
  using runs_hd [of is_slug_char y ys]
  by (cases "runs is_slug_char (y # ys)") (simp_all add: spec_collapse_alt)

lemma spec_collapse_slug_char:
  assumes "is_slug_char c"
  shows "spec_collapse (c # cs) = c # spec_collapse cs"
proof (cases cs)
  case Nil
  with assms show ?thesis
    by (simp add: spec_collapse_alt)
next
  case (Cons y ys)
  show ?thesis
  proof (cases "is_slug_char y")
    case True
    with assms show ?thesis
      unfolding Cons spec_collapse_Cons [of y ys] by (simp add: spec_collapse_alt)
  next
    case False
    with assms show ?thesis
      unfolding Cons by (simp add: spec_collapse_alt)
  qed
qed

lemma spec_collapse_other:
  "\<not> is_slug_char c \<Longrightarrow>
   spec_collapse (c # cs) = hyphen # spec_collapse (dropWhile (\<lambda>x. \<not> is_slug_char x) cs)"
proof (induction cs arbitrary: c)
  case Nil
  then show ?case
    by (simp add: spec_collapse_alt)
next
  case (Cons y ys)
  show ?case
  proof (cases "is_slug_char y")
    case True
    with Cons.prems show ?thesis
      by (simp add: spec_collapse_alt)
  next
    case False
    from Cons.IH [OF False]
    have "concat (map (\<lambda>r. if is_slug_char (hd r) then r else [hyphen])
        (tl (runs is_slug_char (y # ys)))) =
        spec_collapse (dropWhile (\<lambda>x. \<not> is_slug_char x) ys)"
      unfolding spec_collapse_Cons [of y ys] using False by simp
    with False Cons.prems show ?thesis
      by (simp add: spec_collapse_alt)
  qed
qed

lemma replace_runs_spec: "replace_runs s = spec_collapse s"
proof (induction s rule: replace_runs.induct)
  case 1
  show ?case
    by (simp add: spec_collapse_alt)
next
  case (2 c cs)
  then show ?case
    by (cases "is_slug_char c") (simp_all add: spec_collapse_slug_char spec_collapse_other)
qed

lemma strip_scan_end:
  "strip_scan False s = rev (dropWhile (\<lambda>c. c = hyphen) (rev s))"
proof (induction s)
  case Nil
  show ?case by simp
next
  case (Cons c cs)
  show ?case
  proof (cases "list_all (\<lambda>x. x = hyphen) cs")
    case True
    then have "dropWhile (\<lambda>c. c = hyphen) (rev cs) = []"
      by (simp add: list_all_iff)
    with True Cons show ?thesis
      by (simp add: dropWhile_append list_all_iff)
  next
    case False
    with Cons show ?thesis
      by (simp add: dropWhile_append list_all_iff)
  qed
qed

lemma strip_scan_start:
  "strip_scan True s = strip_scan False (dropWhile (\<lambda>c. c = hyphen) s)"
  by (cases s) simp_all

lemma strip_hyphens_spec: "strip_hyphens s = spec_strip s"
  by (simp add: strip_hyphens_def spec_strip_def strip_scan_start strip_scan_end)

lemma baseSlug_spec: "baseSlug L nm = spec_base L nm"
  by (simp add: baseSlug_def spec_base_def strip_hyphens_spec replace_runs_spec)

lemma probe_spec:
  "probe ms self (baseSlug L nm) (baseSlug L nm) 1 = spec_slug L (other_slugs ms self) nm"
  by (simp add: probe_least spec_slug_def spec_candidate taken_other_slugs baseSlug_spec)

subsection \<open>The setters of the slug path change nothing\<close>

lemma replace_runs_chars: "list_all slug_or_hyphen (replace_runs s)"
  by (induction s rule: replace_runs.induct) (auto simp: slug_or_hyphen_def)

lemma list_all_dropWhile: "list_all P xs \<Longrightarrow> list_all P (dropWhile Q xs)"
  by (induction xs) auto

lemma baseSlug_chars: "list_all slug_or_hyphen (baseSlug L nm)"
  by (simp add: baseSlug_def strip_hyphens_spec spec_strip_def replace_runs_chars
      list_all_dropWhile flip: rev_map)

lemma slug_char_not_space: "slug_or_hyphen c \<Longrightarrow> \<not> is_space c"
  by (auto simp: slug_or_hyphen_def is_slug_char_def is_lower_def is_digit_def is_space_def)

lemma slug_char_lower: "slug_or_hyphen c \<Longrightarrow> ascii_lower c = c"
  by (auto simp: slug_or_hyphen_def is_slug_char_def is_lower_def is_digit_def ascii_lower_def)

lemma slug_char_ascii: "slug_or_hyphen c \<Longrightarrow> is_ascii c"
  by (auto simp: slug_or_hyphen_def is_slug_char_def is_lower_def is_digit_def is_ascii_def)

lemma dropWhile_none: "list_all (\<lambda>c. \<not> P c) xs \<Longrightarrow> dropWhile P xs = xs"
  by (cases xs) auto

lemma set_slug_fixed:
  assumes "list_all slug_or_hyphen x"
  shows "set_slug L x = x"
proof -
  have ns: "list_all (\<lambda>c. \<not> is_space c) x"
    using assms by (auto simp: list_all_iff slug_char_not_space)
  then have "list_all (\<lambda>c. \<not> is_space c) (rev x)"
    by (simp add: list_all_iff)
  with ns have "trim x = x"
    by (simp add: trim_def dropWhile_none)
  moreover have "toLowerCase L x = x"
    using assms by (auto simp: toLowerCase_def list_all_iff slug_char_lower slug_char_ascii intro: map_idI)
  ultimately show ?thesis
    by (simp add: set_slug_def)
qed

lemma candidate_chars: "list_all slug_or_hyphen base \<Longrightarrow> list_all slug_or_hyphen (candidate base k)"
  using string_of_nat_digits [of k]
  by (auto simp: candidate_def list_all_iff slug_or_hyphen_def is_slug_char_def)

lemma probe_chars:
  "list_all slug_or_hyphen base \<Longrightarrow> list_all slug_or_hyphen s \<Longrightarrow>
   list_all slug_or_hyphen (probe ms self base s c)"
  by (simp add: probe_least candidate_chars)

lemma pre_save_slug:
  "b \<or> no_slug d \<Longrightarrow>
   slug (pre_save L ms b d) = Some (spec_slug L (other_slugs ms (model_id d)) (name d))"
  by (simp add: pre_save_def probe_spec [symmetric] set_slug_fixed probe_chars baseSlug_chars)

lemma pre_save_slug_free:
  "\<not> list_ex (\<lambda>x. slug x = slug (pre_save L ms b d) \<and> model_id x \<noteq> model_id d) ms \<or>
   slug (pre_save L ms b d) = slug d"
proof (cases "b \<or> no_slug d")
  case False
  then show ?thesis
    by (simp add: pre_save_def)
next
  case True
  let ?p = "probe ms (model_id d) (baseSlug L (name d)) (baseSlug L (name d)) 1"
  have "slug (pre_save L ms b d) = Some ?p"
    using True by (simp add: pre_save_def set_slug_fixed probe_chars baseSlug_chars)
  moreover have "findOne_slug ms ?p (model_id d) = None"
    using probe_not_taken [of ms "model_id d"] by (simp add: taken_def)
  ultimately show ?thesis
    by (simp add: findOne_slug_def find_None_iff list_ex_iff)
qed

subsection \<open>When a save succeeds\<close>

lemma validate_paths_status:
  "st \<in> set statuses \<Longrightarrow> validate_paths m \<Longrightarrow> validate_paths (set_status st r m)"
  by (auto simp: validate_paths_def set_status_def)

lemma save_loaded_ok:
  assumes "validate_paths d" and "slug d = slug m"
  shows "save L now ms (Some m) d =
     Inr (pre_save L ms (name m \<noteq> name d) (timestamps now (Some m) d),
          replace_doc (pre_save L ms (name m \<noteq> name d) (timestamps now (Some m) d)) ms)"
proof -
  let ?d = "pre_save L ms (name m \<noteq> name d) (timestamps now (Some m) d)"
  have "\<not> duplicate_key ms (Some m) ?d"
    using pre_save_slug_free [of L ms "name m \<noteq> name d" "timestamps now (Some m) d"] assms(2)
    by (auto simp: duplicate_key_def)
  with assms(1) show ?thesis
    by (simp add: save_def Let_def name_modified_def)
qed

lemma create_success:
  assumes "create_model L now new_id caller s body = (Inr d, s')"
  obtains v where "validate L body = Inr v"
    and "save L now (models s) None (new_doc new_id caller v) = Inr (d, models s')"
proof (cases "validate L body")
  case (Inl errs)
  with assms show ?thesis
    by (simp add: create_model_def)
next
  case (Inr v)
  show ?thesis
  proof (cases "find (\<lambda>m. name m = v_name v \<and> uploadedBy m = caller) (models s)")
    case (Some x)
    with assms Inr show ?thesis
      by (simp add: create_model_def)
  next
    case None
    show ?thesis
    proof (cases "save L now (models s) None (new_doc new_id caller v)")
      case (Inl e)
      with assms Inr None show ?thesis
        by (simp add: create_model_def)
    next
      case (Inr r)
      obtain d' ms' where r: "r = (d', ms')"
        by (cases r)
      from assms \<open>validate L body = Inr v\<close> None Inr r
      have "d' = d" and "s' = s\<lparr>models := ms', users := push_uploaded caller (model_id d') (users s)\<rparr>"
        by (auto simp add: create_model_def)
      then have "save L now (models s) None (new_doc new_id caller v) = Inr (d, models s')"
        using Inr r by simp
      with that \<open>validate L body = Inr v\<close> show ?thesis
        by blast
    qed
  qed
qed

lemma update_success:
  assumes "distinct (map model_id (models s))"
    and "m \<in> set (models s)"
    and "castObjectId L rid = Some (model_id m)"
    and "uploadedBy m = caller"
    and "update_model L now caller s rid body = (Inr d, s')"
  obtains v where "status m \<noteq> js ''approved''"
    and "validate L body = Inr v"
    and "save L now (models s) (Some m) (reset_rejected (assign m v)) = Inr (d, models s')"
    and "users s' = users s"
proof -
  have f: "find (\<lambda>x. model_id x = model_id m \<and> uploadedBy x = caller) (models s) = Some m"
    using assms(1,2,4) by (rule find_owned)
  from assms(5) have "\<exists>v. status m \<noteq> js ''approved'' \<and> validate L body = Inr v \<and>
      save L now (models s) (Some m) (reset_rejected (assign m v)) = Inr (d, models s') \<and>
      users s' = users s"
    by (auto simp: update_model_def assms(3) f split: if_splits sum.splits prod.splits)
  with that show ?thesis by blast
qed

subsection \<open>The shape of a slug whose name has a letter or a digit\<close>

lemma no_double_tl: "no_double (c # cs) \<Longrightarrow> no_double cs"
  unfolding no_double_def by (metis append_Cons)

lemma no_double_hyphen_hd: "no_double (hyphen # c # cs) \<Longrightarrow> c \<noteq> hyphen"
  unfolding no_double_def by (metis append_Cons append_Nil)

lemma no_double_Cons:
  assumes "no_double cs" and "c \<noteq> hyphen \<or> cs = [] \<or> hd cs \<noteq> hyphen"
  shows "no_double (c # cs)"
  unfolding no_double_def
proof
  assume "\<exists>pre post. c # cs = pre @ [hyphen, hyphen] @ post"
  then obtain pre post where e: "c # cs = pre @ [hyphen, hyphen] @ post" by blast
  show False
  proof (cases pre)
    case Nil
    with e have "c = hyphen" "cs = hyphen # post" by simp_all
    with assms(2) show False by simp
  next
    case (Cons a pre')
    with e have "cs = pre' @ [hyphen, hyphen] @ post" by simp
    with assms(1) show False
      unfolding no_double_def by blast
  qed
qed

lemma no_double_rev: "no_double (rev s) = no_double s"
proof -
  have "(\<exists>pre post. rev s = pre @ [hyphen, hyphen] @ post) \<longleftrightarrow> (\<exists>pre post. s = pre @ [hyphen, hyphen] @ post)"
  proof
    assume "\<exists>pre post. rev s = pre @ [hyphen, hyphen] @ post"
    then obtain pre post where "rev s = pre @ [hyphen, hyphen] @ post" by blast
    then have "rev (rev s) = rev (pre @ [hyphen, hyphen] @ post)" by simp
    then have "s = rev post @ [hyphen, hyphen] @ rev pre" by simp
    then show "\<exists>pre post. s = pre @ [hyphen, hyphen] @ post" by blast
  next
    assume "\<exists>pre post. s = pre @ [hyphen, hyphen] @ post"
    then obtain pre post where "s = pre @ [hyphen, hyphen] @ post" by blast
    then have "rev s = rev post @ [hyphen, hyphen] @ rev pre" by simp
    then show "\<exists>pre post. rev s = pre @ [hyphen, hyphen] @ post" by blast
  qed
  then show ?thesis
    by (simp add: no_double_def)
qed

lemma no_double_dropWhile: "no_double s \<Longrightarrow> no_double (dropWhile P s)"
proof -
  assume a: "no_double s"
  show ?thesis
    unfolding no_double_def
  proof
    assume "\<exists>pre post. dropWhile P s = pre @ [hyphen, hyphen] @ post"
    then obtain pre post where "dropWhile P s = pre @ [hyphen, hyphen] @ post" by blast
    then have "s = (takeWhile P s @ pre) @ [hyphen, hyphen] @ post"
      by (metis append.assoc takeWhile_dropWhile_id)
    with a show False
      unfolding no_double_def by blast
  qed
qed

lemma slug_char_not_hyphen: "is_slug_char c \<Longrightarrow> c \<noteq> hyphen"
  by (auto simp: is_slug_char_def is_lower_def is_digit_def)

lemma replace_runs_hd:
  "cs = [] \<or> is_slug_char (hd cs) \<Longrightarrow> replace_runs cs = [] \<or> hd (replace_runs cs) \<noteq> hyphen"
  by (cases cs) (auto simp: slug_char_not_hyphen)

lemma dropWhile_hd: "dropWhile P cs = [] \<or> \<not> P (hd (dropWhile P cs))"
  by (metis hd_dropWhile)

lemma replace_runs_no_double: "no_double (replace_runs s)"
proof (induction s rule: replace_runs.induct)
  case 1
  show ?case by (simp add: no_double_def)
next
  case (2 c cs)
  show ?case
  proof (cases "is_slug_char c")
    case True
    with 2 show ?thesis
      by (simp add: no_double_Cons slug_char_not_hyphen)
  next
    case False
    let ?r = "dropWhile (\<lambda>x. \<not> is_slug_char x) cs"
    have "?r = [] \<or> is_slug_char (hd ?r)"
      using dropWhile_hd [of "\<lambda>x. \<not> is_slug_char x" cs] by simp
    then have "replace_runs ?r = [] \<or> hd (replace_runs ?r) \<noteq> hyphen"
      by (rule replace_runs_hd)
    with False 2 show ?thesis
      by (simp add: no_double_Cons)
  qed
qed

lemma shape_iff:
  assumes "list_all slug_or_hyphen s" and "no_double s"
  shows "shape prev s \<longleftrightarrow>
     (if s = [] then prev else (hd s = hyphen \<longrightarrow> prev) \<and> last s \<noteq> hyphen)"
  using assms
proof (induction s arbitrary: prev)
  case Nil
  show ?case by simp
next
  case (Cons c cs)
  then have ih: "\<And>p. shape p cs \<longleftrightarrow>
      (if cs = [] then p else (hd cs = hyphen \<longrightarrow> p) \<and> last cs \<noteq> hyphen)"
    by (simp add: no_double_tl [OF Cons.prems(2)])
  show ?case
  proof (cases "is_slug_char c")
    case True
    then show ?thesis
      by (simp add: ih slug_char_not_hyphen)
  next
    case False
    with Cons.prems(1) have c: "c = hyphen"
      by (simp add: slug_or_hyphen_def)
    have "cs = [] \<or> hd cs \<noteq> hyphen"
      using Cons.prems(2) c by (cases cs) (auto dest: no_double_hyphen_hd)
    with False c show ?thesis
      by (auto simp: ih)
  qed
qed

lemma strip_hyphens_ends:
  "strip_hyphens s = [] \<or>
   hd (strip_hyphens s) \<noteq> hyphen \<and> last (strip_hyphens s) \<noteq> hyphen"
proof (cases "strip_hyphens s = []")
  case True
  then show ?thesis by simp
next
  case False
  let ?a = "dropWhile (\<lambda>c. c = hyphen) s"
  let ?b = "dropWhile (\<lambda>c. c = hyphen) (rev ?a)"
  have b: "?b \<noteq> []"
    using False by (simp add: strip_hyphens_spec spec_strip_def)
  then have "\<not> (\<lambda>c. c = hyphen) (hd ?b)"
    by (rule hd_dropWhile)
  then have "hd ?b \<noteq> hyphen"
    by simp
  then have l: "last (strip_hyphens s) \<noteq> hyphen"
    using b by (simp add: strip_hyphens_spec spec_strip_def last_rev)
  have a: "?a \<noteq> []"
  proof
    assume e: "?a = []"
    have "?b = []"
      unfolding e by simp
    with b show False
      by contradiction
  qed
  then have "\<not> (\<lambda>c. c = hyphen) (hd ?a)"
    by (rule hd_dropWhile)
  then have ha: "hd ?a \<noteq> hyphen"
    by simp
  have "rev ?a = takeWhile (\<lambda>c. c = hyphen) (rev ?a) @ ?b"
    by simp
  then have "?a = rev ?b @ rev (takeWhile (\<lambda>c. c = hyphen) (rev ?a))"
    by (metis rev_append rev_rev_ident)
  with b have "hd ?a = hd (rev ?b)"
    by (metis hd_append2 rev_is_Nil_conv)
  with ha have "hd (strip_hyphens s) \<noteq> hyphen"
    by (simp add: strip_hyphens_spec spec_strip_def)
  with l show ?thesis by simp
qed

lemma strip_hyphens_keeps:
  "is_slug_char c \<Longrightarrow> c \<in> set s \<Longrightarrow> c \<in> set (strip_hyphens s)"
proof -
  assume c: "is_slug_char c" "c \<in> set s"
  have keep: "c \<in> set (dropWhile (\<lambda>c. c = hyphen) xs)" if "c \<in> set xs" for xs
  proof -
    from that have "c \<in> set (takeWhile (\<lambda>c. c = hyphen) xs) \<or>
        c \<in> set (dropWhile (\<lambda>c. c = hyphen) xs)"
      by (metis Un_iff set_append takeWhile_dropWhile_id)
    moreover have "c \<notin> set (takeWhile (\<lambda>c. c = hyphen) xs)"
    proof
      assume "c \<in> set (takeWhile (\<lambda>c. c = hyphen) xs)"
      then have "c \<in> set xs \<and> (\<lambda>c. c = hyphen) c"
        by (rule set_takeWhileD)
      with slug_char_not_hyphen [OF c(1)] show False
        by simp
    qed
    ultimately show ?thesis by simp
  qed
  show ?thesis
    using c(2) by (simp add: strip_hyphens_spec spec_strip_def keep)
qed

lemma replace_runs_keeps: "is_slug_char c \<Longrightarrow> c \<in> set s \<Longrightarrow> c \<in> set (replace_runs s)"
proof (induction s rule: replace_runs.induct)
  case 1
  then show ?case by simp
next
  case (2 d cs)
  show ?case
  proof (cases "is_slug_char d")
    case True
    with 2 show ?thesis by auto
  next
    case False
    with 2 have "c \<in> set cs" by auto
    then have "c \<in> set (takeWhile (\<lambda>x. \<not> is_slug_char x) cs) \<or>
        c \<in> set (dropWhile (\<lambda>x. \<not> is_slug_char x) cs)"
      by (metis Un_iff set_append takeWhile_dropWhile_id)
    moreover have "c \<notin> set (takeWhile (\<lambda>x. \<not> is_slug_char x) cs)"
    proof
      assume "c \<in> set (takeWhile (\<lambda>x. \<not> is_slug_char x) cs)"
      then have "c \<in> set cs \<and> (\<lambda>x. \<not> is_slug_char x) c"
        by (rule set_takeWhileD)
      with 2(3) show False
        by simp
    qed
    ultimately show ?thesis
      using False 2 by simp
  qed
qed

lemma baseSlug_shape:
  assumes "list_ex is_slug_char (toLowerCase L nm)"
  shows "slug_shape (baseSlug L nm)"
proof -
  from assms obtain c where c: "is_slug_char c" "c \<in> set (toLowerCase L nm)"
    by (auto simp: list_ex_iff)
  then have "c \<in> set (baseSlug L nm)"
    by (simp add: baseSlug_def strip_hyphens_keeps replace_runs_keeps)
  then have ne: "baseSlug L nm \<noteq> []"
    by auto
  have nd: "no_double (baseSlug L nm)"
    by (simp add: baseSlug_def strip_hyphens_spec spec_strip_def no_double_rev no_double_dropWhile
        replace_runs_no_double)
  from ne strip_hyphens_ends [of "replace_runs (toLowerCase L nm)"]
  have "hd (baseSlug L nm) \<noteq> hyphen \<and> last (baseSlug L nm) \<noteq> hyphen"
    by (simp add: baseSlug_def)
  with ne show ?thesis
    by (simp add: slug_shape_def shape_iff [OF baseSlug_chars nd])
qed

lemma shape_append: "shape p xs \<Longrightarrow> shape True ys \<Longrightarrow> shape p (xs @ ys)"
  by (induction xs arbitrary: p) (auto split: if_splits)

lemma shape_slug_chars: "list_all is_slug_char ds \<Longrightarrow> ds \<noteq> [] \<Longrightarrow> shape p ds"
proof (induction ds arbitrary: p)
  case Nil
  then show ?case by simp
next
  case (Cons d ds)
  then show ?case
    by (cases ds) auto
qed

lemma candidate_shape:
  assumes "slug_shape base"
  shows "slug_shape (candidate base k)"
proof -
  have "list_all is_slug_char (string_of_nat k)"
    using string_of_nat_digits [of k] by (auto simp: list_all_iff is_slug_char_def)
  then have "shape False (string_of_nat k)"
    by (rule shape_slug_chars) (rule string_of_nat_nonempty)
  then have "shape True ([hyphen] @ string_of_nat k)"
    by (simp add: is_slug_char_def is_lower_def is_digit_def)
  with assms show ?thesis
    unfolding slug_shape_def candidate_def by (rule shape_append)
qed

lemma spec_slug_shape:
  "list_ex is_slug_char (toLowerCase L nm) \<Longrightarrow> slug_shape (spec_slug L others nm)"
  by (simp add: spec_slug_def spec_candidate baseSlug_shape candidate_shape flip: baseSlug_spec)

subsection \<open>Ids and slugs stay unique\<close>

text \<open>Run one after the other, the routes keep the ids and the slugs of the store pairwise
  different: the probe finds a slug no other listing has, and the unique index refuses
  the rest.\<close>

lemma save_new_unique:
  assumes "save L now ms None d = Inr (d', ms')"
    and "distinct (map slug ms)" and "distinct (map model_id ms)"
  shows "distinct (map slug ms') \<and> distinct (map model_id ms')"
proof -
  note sv = save_new [OF assms(1)]
  from sv(3) have "slug d' \<notin> slug ` set ms" "model_id d' \<notin> model_id ` set ms"
    by (auto simp: duplicate_key_def list_ex_iff)
  with assms(2,3) show ?thesis
    by (simp add: sv(2))
qed

lemma replace_doc_ids: "model_id d = i \<Longrightarrow> map model_id (replace_doc d ms) = map model_id ms"
  by (induction ms) auto

lemma set_replace_doc:
  "set (replace_doc d ms) \<subseteq> insert d (set ms)"
  by (induction ms) auto

lemma replace_doc_distinct_slugs:
  assumes "distinct (map model_id ms)" and "distinct (map slug ms)"
    and "\<forall>x \<in> set ms. model_id x \<noteq> model_id d \<longrightarrow> slug x \<noteq> slug d"
  shows "distinct (map slug (replace_doc d ms))"
  using assms
proof (induction ms)
  case Nil
  then show ?case by simp
next
  case (Cons m ms)
  show ?case
  proof (cases "model_id m = model_id d")
    case True
    have "slug d \<notin> slug ` set ms"
    proof
      assume "slug d \<in> slug ` set ms"
      then obtain x where x: "x \<in> set ms" "slug x = slug d" by auto
      with Cons.prems(1) True have "model_id x \<noteq> model_id d" by (auto simp: image_iff)
      with Cons.prems(3) x show False by auto
    qed
    with Cons.prems(2) True show ?thesis by simp
  next
    case False
    have ih: "distinct (map slug (replace_doc d ms))"
      using Cons by simp
    have "slug m \<notin> slug ` set (replace_doc d ms)"
    proof
      assume "slug m \<in> slug ` set (replace_doc d ms)"
      then obtain x where x: "x \<in> set (replace_doc d ms)" "slug x = slug m" by auto
      with set_replace_doc [of d ms] have "x = d \<or> x \<in> set ms" by auto
      then show False
      proof
        assume "x = d"
        with x(2) False Cons.prems(3) show False by auto
      next
        assume "x \<in> set ms"
        with x(2) Cons.prems(2) show False by (auto simp: image_iff)
      qed
    qed
    with ih False show ?thesis by simp
  qed
qed

lemma save_loaded_unique:
  assumes "save L now ms (Some m) d = Inr (d', ms')"
    and "distinct (map slug ms)" and "distinct (map model_id ms)"
    and "m \<in> set ms" and "model_id d = model_id m" and "slug d = slug m"
  shows "distinct (map slug ms') \<and> distinct (map model_id ms')"
proof -
  note sv = save_loaded [OF assms(1)]
  have id: "model_id d' = model_id m"
    by (simp add: sv(1) assms(5))
  have free: "\<forall>x \<in> set ms. model_id x \<noteq> model_id d' \<longrightarrow> slug x \<noteq> slug d'"
  proof (intro ballI impI)
    fix x assume x: "x \<in> set ms" "model_id x \<noteq> model_id d'"
    from pre_save_slug_free [of L ms "name m \<noteq> name d" "timestamps now (Some m) d"]
    have "\<not> list_ex (\<lambda>x. slug x = slug d' \<and> model_id x \<noteq> model_id d') ms \<or> slug d' = slug m"
      by (simp add: sv(1) assms(5,6))
    then show "slug x \<noteq> slug d'"
    proof
      assume "\<not> list_ex (\<lambda>x. slug x = slug d' \<and> model_id x \<noteq> model_id d') ms"
      with x show ?thesis by (auto simp: list_ex_iff)
    next
      assume e: "slug d' = slug m"
      from x id have "x \<noteq> m" by auto
      with assms(2,4) x(1) have "slug x \<noteq> slug m"
        by (meson distinct_map inj_on_eq_iff)
      with e show ?thesis by simp
    qed
  qed
  have "distinct (map slug (replace_doc d' ms))"
    using assms(3,2) free by (rule replace_doc_distinct_slugs)
  moreover have "distinct (map model_id (replace_doc d' ms))"
    using assms(3) by (simp add: replace_doc_ids [OF id])
  ultimately show ?thesis
    by (simp add: sv(2))
qed

lemma create_keeps_store:
  assumes "store_ok s" and "create_model L now new_id caller s body = (r, s')"
  shows "store_ok s'"
proof (cases r)
  case (Inl e)
  with assms(2) have "s' = s"
    by (auto simp: create_model_def split: sum.splits option.splits prod.splits)
  with assms(1) show ?thesis by simp
next
  case (Inr d)
  with assms(2) obtain v where
    "save L now (models s) None (new_doc new_id caller v) = Inr (d, models s')"
    by (auto elim: create_success)
  from save_new_unique [OF this] assms(1) show ?thesis
    by (simp add: store_ok_def)
qed

lemma update_keeps_store:
  assumes "store_ok s" and "update_model L now caller s rid body = (r, s')"
  shows "store_ok s'"
proof (cases "castObjectId L rid")
  case None
  with assms show ?thesis
    by (simp add: update_model_def)
next
  case (Some i)
  show ?thesis
  proof (cases "find (\<lambda>m. model_id m = i \<and> uploadedBy m = caller) (models s)")
    case None
    with assms Some show ?thesis
      by (simp add: update_model_def)
  next
    case found: (Some m)
    then have m: "m \<in> set (models s)" "model_id m = i"
      by (auto simp: find_Some_iff)
    show ?thesis
    proof (cases "status m = js ''approved''")
      case True
      with assms Some found show ?thesis
        by (simp add: update_model_def)
    next
      case False
      show ?thesis
      proof (cases "validate L body")
        case (Inl errs)
        with assms Some found False show ?thesis
          by (simp add: update_model_def)
      next
        case (Inr v)
        show ?thesis
        proof (cases "save L now (models s) (Some m) (reset_rejected (assign m v))")
          case (Inl e)
          with assms Some found False Inr show ?thesis
            by (simp add: update_model_def)
        next
          case saved: (Inr p)
          obtain d ms' where p: "p = (d, ms')"
            by (cases p)
          with assms(2) Some found False Inr saved have s': "models s' = ms'"
            by (auto simp: update_model_def)
          from saved p
          have sv: "save L now (models s) (Some m) (reset_rejected (assign m v)) = Inr (d, ms')"
            by simp
          have "distinct (map slug ms') \<and> distinct (map model_id ms')"
            using save_loaded_unique [OF sv] assms(1) m by (simp add: store_ok_def)
          with s' show ?thesis
            by (simp add: store_ok_def)
        qed
      qed
    qed
  qed
qed

lemma admin_keeps_store:
  assumes "store_ok s" and "admin_set_status L now s rid body = (r, s')"
  shows "store_ok s'"
proof (cases r)
  case (Inl e)
  with assms(2) have "s' = s"
    by (auto simp: admin_set_status_def split: option.splits if_splits sum.splits prod.splits)
  with assms(1) show ?thesis by simp
next
  case (Inr d)
  with assms(2) obtain st i m where
    "find (\<lambda>m. model_id m = i) (models s) = Some m"
    "save L now (models s) (Some m) (set_status st (b_rejectionReason body) m) = Inr (d, models s')"
    by (auto simp: admin_set_status_def split: option.splits if_splits sum.splits prod.splits)
  then have "m \<in> set (models s)"
    and sv: "save L now (models s) (Some m) (set_status st (b_rejectionReason body) m) =
      Inr (d, models s')"
    by (auto simp: find_Some_iff)
  from save_loaded_unique [OF sv] assms(1) \<open>m \<in> set (models s)\<close> show ?thesis
    by (simp add: store_ok_def)
qed

lemma remove_doc_distinct: "distinct (map f ms) \<Longrightarrow> distinct (map f (remove_doc i ms))"
proof (induction ms)
  case Nil
  then show ?case by simp
next
  case (Cons m ms)
  have "set (remove_doc i ms) \<subseteq> set ms"
    by (induction ms) auto
  with Cons show ?case
    by auto
qed

lemma delete_keeps_store:
  assumes "store_ok s" and "delete_model L caller s rid = (r, s')"
  shows "store_ok s'"
  using assms
  by (auto simp: delete_model_def store_ok_def remove_doc_distinct split: option.splits)

section \<open>The public query and its page\<close>

lemma starts_with_iff: "starts_with pat s \<longleftrightarrow> (\<exists>post. s = pat @ post)"
  by (induction pat s rule: starts_with.induct) auto

lemma contains_iff: "contains pat s \<longleftrightarrow> (\<exists>pre post. s = pre @ pat @ post)"
proof (induction s)
  case Nil
  then show ?case by auto
next
  case (Cons c cs)
  have "(\<exists>pre post. c # cs = pre @ pat @ post) \<longleftrightarrow>
      (\<exists>post. c # cs = pat @ post) \<or> (\<exists>pre post. cs = pre @ pat @ post)"
  proof
    assume "\<exists>pre post. c # cs = pre @ pat @ post"
    then obtain pre post where e: "c # cs = pre @ pat @ post" by blast
    show "(\<exists>post. c # cs = pat @ post) \<or> (\<exists>pre post. cs = pre @ pat @ post)"
    proof (cases pre)
      case Nil
      with e show ?thesis by auto
    next
      case (Cons a pre')
      with e have "cs = pre' @ pat @ post" by simp
      then show ?thesis by blast
    qed
  next
    assume "(\<exists>post. c # cs = pat @ post) \<or> (\<exists>pre post. cs = pre @ pat @ post)"
    then show "\<exists>pre post. c # cs = pre @ pat @ post"
    proof
      assume "\<exists>post. c # cs = pat @ post"
      then obtain post where "c # cs = [] @ pat @ post" by auto
      then show ?thesis by blast
    next
      assume "\<exists>pre post. cs = pre @ pat @ post"
      then obtain pre post where "c # cs = (c # pre) @ pat @ post" by auto
      then show ?thesis by blast
    qed
  qed
  with Cons show ?case
    by (simp add: starts_with_iff)
qed

lemma literal_matcher_iff: "literal_matcher L t x = in_any_case L t x"
  by (simp add: literal_matcher_def ci_contains_def in_any_case_def contains_iff)

lemma compile_search_literal:
  assumes "\<forall>t. q_search q = Some t \<longrightarrow> is_literal t"
  shows "compile_search L (q_search q) =
     Some (case q_search q of None \<Rightarrow> None | Some t \<Rightarrow> if t = [] then None else Some (literal_matcher L t))"
  using assms by (auto simp: compile_search_def search_matcher_def split: option.splits)

lemma matches_filter_literal:
  "matches_filter q (case q_search q of None \<Rightarrow> None
       | Some t \<Rightarrow> if t = [] then None else Some (literal_matcher L t)) m = query_match L q m"
  by (cases "q_category q"; cases "q_pricing q"; cases "q_search q")
    (auto simp: matches_filter_def query_match_def given_def literal_matcher_iff list_ex_iff)

lemma paginate_eq:
  assumes "limit_of q = 0 \<or> 1 \<le> page_of q"
  shows "paginate q xs =
     Inr \<lparr>pg_models = window q xs, currentPage = page_of q,
          totalPages = (if limit_of q = 0 then None
                        else Some (ceil_div (length xs) (limit_of q))),
          totalModels = length xs,
          hasNext = (if limit_of q = 0 then 0 < length xs
                     else page_of q < ceil_div (length xs) (limit_of q)),
          hasPrev = (1 < page_of q)\<rparr>"
  using assms by (auto simp: paginate_def window_def Let_def)

lemma paginate_page0:
  "limit_of q \<noteq> 0 \<Longrightarrow> page_of q = 0 \<Longrightarrow> paginate q xs = Inl InternalServerError"
  by (simp add: paginate_def Let_def)

lemma list_models_page0:
  assumes "\<forall>t. q_search q = Some t \<longrightarrow> is_literal t"
    and "limit_of q \<noteq> 0" and "page_of q = 0"
  shows "list_models L s q = Inl InternalServerError"
  unfolding list_models_def compile_search_literal [OF assms(1)] option.case
    paginate_page0 [OF assms(2,3)]
  by simp

lemma list_models_literal:
  assumes "\<forall>t. q_search q = Some t \<longrightarrow> is_literal t"
    and "limit_of q = 0 \<or> 1 \<le> page_of q"
  shows "list_models L s q =
     Inr \<lparr>pg_models = map (public_view (users s))
            (window q (sort_key public_order (filter (query_match L q) (models s)))),
          currentPage = page_of q,
          totalPages = (if limit_of q = 0 then None
                        else Some (ceil_div (length (filter (query_match L q) (models s))) (limit_of q))),
          totalModels = length (filter (query_match L q) (models s)),
          hasNext = (if limit_of q = 0 then 0 < length (filter (query_match L q) (models s))
                     else page_of q < ceil_div (length (filter (query_match L q) (models s))) (limit_of q)),
          hasPrev = (1 < page_of q)\<rparr>"
proof -
  let ?mt = "case q_search q of None \<Rightarrow> None
       | Some t \<Rightarrow> if t = [] then None else Some (literal_matcher L t)"
  have f: "found_models s q ?mt = filter (query_match L q) (models s)"
    by (simp add: found_models_def matches_filter_literal cong: filter_cong)
  have c: "compile_search L (q_search q) = Some ?mt"
    by (rule compile_search_literal [OF assms(1)])
  show ?thesis
    unfolding list_models_def c option.case f paginate_eq [OF assms(2)] sum.case map_page_def
    by simp
qed

lemma list_models_items:
  assumes "list_models L s q = Inr pg"
  shows "\<exists>xs. pg_models pg = map (public_view (users s)) xs"
proof (cases "compile_search L (q_search q)")
  case None
  with assms show ?thesis
    by (simp add: list_models_def)
next
  case (Some matcher)
  show ?thesis
  proof (cases "paginate q (sort_key public_order (found_models s q matcher))")
    case (Inl e)
    with assms Some show ?thesis
      by (simp add: list_models_def)
  next
    case (Inr pg0)
    with assms Some have "pg = map_page (public_view (users s)) pg0"
      by (simp add: list_models_def)
    then have "pg_models pg = map (public_view (users s)) (pg_models pg0)"
      by (simp add: map_page_def)
    then show ?thesis by blast
  qed
qed

lemma public_view_reason: "rejectionReason (public_view us m) = None"
  by (simp add: public_view_def deselect_rejectionReason_def)

lemma public_view_owner:
  "uploadedBy (public_view us m) = populate us [''firstName'', ''lastName''] (uploadedBy m)"
  by (simp add: public_view_def deselect_rejectionReason_def map_uploadedBy_def)

lemma populate_paths:
  "populate us paths uid = Some owner \<Longrightarrow> fst ` set owner \<subseteq> insert ''_id'' (set paths)"
  by (auto simp: populate_def)

lemma my_models_set:
  "set (my_models caller s) =
     map_uploadedBy (\<lambda>_. ()) ` {m \<in> set (models s). uploadedBy m = caller}"
  by (simp add: my_models_def)

subsection \<open>Pagination\<close>

lemma ceil_div_least:
  assumes "0 < b"
  shows "a \<le> ceil_div a b * b" and "a \<le> n * b \<Longrightarrow> ceil_div a b \<le> n"
proof -
  have "a + b - 1 < ((a + b - 1) div b) * b + b"
    using assms by (metis add.commute div_mult_mod_eq mod_less_divisor nat_add_left_cancel_less)
  then show "a \<le> ceil_div a b * b"
    using assms by (simp add: ceil_div_def)
  assume "a \<le> n * b"
  then have "a + b - 1 < (n + 1) * b"
    using assms by simp
  then have "(a + b - 1) div b < n + 1"
    using assms by (simp add: div_less_iff_less_mult)
  then show "ceil_div a b \<le> n"
    by (simp add: ceil_div_def)
qed

lemma pagination_defaults:
  "page_of (q\<lparr>q_page := None\<rparr>) = 1" "limit_of (q\<lparr>q_limit := None\<rparr>) = 20"
  by (simp_all add: page_of_def limit_of_def)

text \<open>The metadata of every page the public query answers with, for a positive limit:
  the page is at least 1, and the numbers are those of the specification.\<close>

lemma pagination_metadata:
  assumes "list_models L s q = Inr pg" and "0 < limit_of q"
  shows "1 \<le> page_of q \<and> currentPage pg = page_of q \<and>
     totalPages pg = Some (ceil_div (totalModels pg) (limit_of q)) \<and>
     hasNext pg = (page_of q < ceil_div (totalModels pg) (limit_of q)) \<and>
     hasPrev pg = (1 < page_of q)"
proof (cases "compile_search L (q_search q)")
  case None
  with assms show ?thesis
    by (simp add: list_models_def)
next
  case (Some matcher)
  show ?thesis
  proof (cases "paginate q (sort_key public_order (found_models s q matcher))")
    case (Inl e)
    with assms Some show ?thesis
      by (simp add: list_models_def)
  next
    case (Inr pg0)
    with assms Some have "pg = map_page (public_view (users s)) pg0"
      by (simp add: list_models_def)
    moreover from Inr assms(2) have "1 \<le> page_of q \<and> currentPage pg0 = page_of q \<and>
        totalPages pg0 = Some (ceil_div (totalModels pg0) (limit_of q)) \<and>
        hasNext pg0 = (page_of q < ceil_div (totalModels pg0) (limit_of q)) \<and>
        hasPrev pg0 = (1 < page_of q)"
      by (auto simp: paginate_def Let_def split: if_splits)
    ultimately show ?thesis
      by (simp add: map_page_def)
  qed
qed

lemma pagination_example: "ceil_div 95 20 = 5" "\<not> (5 < ceil_div 95 20)" "(1::nat) < 5"
  by (simp_all add: ceil_div_def)

lemma query_match_limit_query: "query_match L (limit_query n) m = (status m = js ''approved'')"
  by (simp add: query_match_def limit_query_def)

lemma many_db_found:
  "filter (query_match L (limit_query k)) (models (many_db n)) = models (many_db n)"
  by (simp add: query_match_limit_query many_db_def numbered_doc_def doc1_def default_doc_def)

lemma list_many:
  assumes "0 < n"
  shows "list_models L (many_db n) (limit_query n) =
     Inr \<lparr>pg_models = map (public_view [alice]) (sort_key public_order (models (many_db n))),
          currentPage = 1, totalPages = Some 1, totalModels = n, hasNext = False,
          hasPrev = False\<rparr>"
proof -
  have l: "\<forall>t. q_search (limit_query n) = Some t \<longrightarrow> is_literal t"
    by (simp add: limit_query_def)
  have p: "limit_of (limit_query n) = 0 \<or> 1 \<le> page_of (limit_query n)"
    by (simp add: limit_query_def page_of_def)
  have len: "length (models (many_db n)) = n"
    by (simp add: many_db_def)
  have c: "ceil_div n n = 1"
  proof -
    have "ceil_div n n \<le> 1"
      by (rule ceil_div_least(2) [OF assms]) simp
    moreover have "n \<le> ceil_div n n * n"
      by (rule ceil_div_least(1) [OF assms])
    then have "ceil_div n n \<noteq> 0"
      using assms by auto
    ultimately show ?thesis by simp
  qed
  have po: "page_of (limit_query n) = 1" "limit_of (limit_query n) = n"
    by (simp_all add: limit_query_def page_of_def limit_of_def)
  have w: "window (limit_query n) (sort_key public_order (models (many_db n))) =
      sort_key public_order (models (many_db n))"
    using assms by (simp add: window_def po len)
  have u: "users (many_db n) = [alice]"
    by (simp add: many_db_def)
  show ?thesis
    unfolding list_models_literal [OF l p] many_db_found w po len c u
    using assms by simp
qed

section \<open>The routes on the sample data\<close>

lemma sample_distinct: "distinct (map model_id (models sample_db))"
  by (simp add: sample_db_def doc1_def doc2_def doc3_def default_doc_def)

lemma cast_id1: "castObjectId sample_lib id1 = Some 1"
  by code_simp

lemma cast_id2: "castObjectId sample_lib id2 = Some 2"
  by code_simp

lemma cast_id3: "castObjectId sample_lib id3 = Some 3"
  by code_simp

lemma cast_absent: "castObjectId sample_lib (js ''0000000000000000000000ff'') = Some 255"
  by code_simp

lemma sample_ids: "model_id ` set (models sample_db) = {1, 2, 3}"
  by (auto simp: sample_db_def doc1_def doc2_def doc3_def default_doc_def)

lemma doc1_facts:
  "doc1 \<in> set (models sample_db)" "model_id doc1 = 1" "uploadedBy doc1 = 7"
  "status doc1 = js ''approved''"
  by (simp_all add: sample_db_def doc1_def default_doc_def)

lemma doc2_facts:
  "doc2 \<in> set (models sample_db)" "model_id doc2 = 2" "uploadedBy doc2 = 7"
  "status doc2 = js ''rejected''" "rejectionReason doc2 = Some (js ''too niche'')"
  by (simp_all add: sample_db_def doc2_def default_doc_def)

lemma doc3_facts:
  "doc3 \<in> set (models sample_db)" "model_id doc3 = 3" "uploadedBy doc3 = 8"
  "status doc3 = js ''pending''" "rejectionReason doc3 = None"
  by (simp_all add: sample_db_def doc3_def default_doc_def)

lemma find_sample:
  "find (\<lambda>m. model_id m = 2) (models sample_db) = Some doc2"
  "find (\<lambda>m. model_id m = 3) (models sample_db) = Some doc3"
  "find (\<lambda>m. model_id m = 255) (models sample_db) = None"
  by (simp_all add: sample_db_def doc1_def doc2_def doc3_def default_doc_def)


lemma sample_value_paths:
  "validate_paths (reset_rejected (assign doc2 sample_value))"
  by code_simp

lemma sample_docs_valid: "validate_paths doc2" "validate_paths doc3"
  by code_simp+


lemma update_doc3:
  "update_model sample_lib 50 8 sample_db id3 sample_body =
     (Inr doc3_edited, sample_db\<lparr>models := [doc1, doc2, doc3_edited]\<rparr>)"
  by code_simp

lemma create_doc4: "create_model sample_lib 60 4 8 sample_db botx_body = (Inr doc4, db4)"
  by code_simp

lemma create_bang: "create_model sample_lib 60 4 8 sample_db bang_body = (Inr bang_doc, db_bang)"
  by code_simp

lemma create_query: "create_model sample_lib 70 5 7 db_bang query_body = (Inr query_doc, db_query)"
  by code_simp

lemma admin_reject_doc3:
  "admin_set_status sample_lib 50 sample_db id3 reject_niche =
     (Inr doc3_rejected, sample_db\<lparr>models := [doc1, doc2, doc3_rejected]\<rparr>)"
  by code_simp

lemma admin_reject_padded:
  "admin_set_status sample_lib 50 sample_db id3 reject_padded =
     (Inr doc3_rejected, sample_db\<lparr>models := [doc1, doc2, doc3_rejected]\<rparr>)"
  by code_simp

lemma admin_approve_doc2:
  "admin_set_status sample_lib 50 sample_db id2 approve_body =
     (Inr doc2_approved, sample_db\<lparr>models := [doc1, doc2_approved, doc3]\<rparr>)"
  by code_simp

lemma list_all_query: "list_models sample_lib sample_db all_query = Inr page1"
  by code_simp

lemma list_search_reason: "list_models sample_lib sample_db (search_query (js ''REASON'')) = Inr page1"
  by code_simp

lemma list_search_infer: "list_models sample_lib sample_db (search_query (js ''infer'')) = Inr page1"
  by code_simp

lemma list_search_xyz:
  "list_models sample_lib sample_db (search_query (js ''xyz'')) =
     Inr \<lparr>pg_models = [], currentPage = 1, totalPages = Some 0, totalModels = 0,
          hasNext = False, hasPrev = False\<rparr>"
  by code_simp

lemma my_models_sample:
  "my_models 7 sample_db = [map_uploadedBy (\<lambda>_. ()) doc2, map_uploadedBy (\<lambda>_. ()) doc1]"
  by code_simp

text \<open>The examples of the specification: "GPT 4!" and "GPT-4" have the same base slug.\<close>

lemma baseSlug_examples:
  "baseSlug L (js ''GPT 4!'') = js ''gpt-4''" "baseSlug L (js ''GPT-4'') = js ''gpt-4''"
  "baseSlug L (js ''Bot X'') = js ''bot-x''" "baseSlug L (js ''!!!'') = []"
  "baseSlug L (js '' Hello World! '') = js ''hello-world''"
  by code_simp+

section \<open>Editing an approved listing\<close>

text \<open>
  Claim C1.  An update by the owner of a stored listing whose status is \<open>approved\<close> is
  answered with the state-conflict error and leaves the store as it was, whatever the
  body of the request: the status is tested before the body is validated.
\<close>

theorem update_approved_conflict:
  assumes "distinct (map model_id (models s))"
    and "m \<in> set (models s)"
    and "castObjectId L rid = Some (model_id m)"
    and "uploadedBy m = caller"
    and "status m = js ''approved''"
  shows "update_model L now caller s rid body = (Inl CannotEditApproved, s)"
proof -
  have "find (\<lambda>x. model_id x = model_id m \<and> uploadedBy x = caller) (models s) = Some m"
    using assms(1,2,4) by (rule find_owned)
  with assms(3,5) show ?thesis
    by (simp add: update_model_def)
qed

text \<open>The body with no key at all fails validation, and is still answered with the
  state conflict when sent for the approved sample listing.\<close>

theorem update_approved_conflict_witness:
  "validate sample_lib empty_body = Inl [Custom ''Model name is required''] \<and>
   update_model sample_lib 50 7 sample_db id1 empty_body = (Inl CannotEditApproved, sample_db)"
proof -
  have "validate sample_lib empty_body = Inl [Custom ''Model name is required'']"
    by (simp add: validate_def validate_fields_def empty_body_def required_string_def)
  moreover have "update_model sample_lib 50 7 sample_db id1 empty_body =
      (Inl CannotEditApproved, sample_db)"
    by (rule update_approved_conflict [of sample_db doc1])
      (simp_all add: sample_distinct cast_id1 doc1_facts)
  ultimately show ?thesis by simp
qed

section \<open>Editing a rejected or a pending listing\<close>



section \<open>The admin's status change\<close>

text \<open>
  Claim C3, as stated, fails where it says that the given rejection reason is stored:
  the path has the setter \<open>trim: true\<close>, so a reason sent with white space around it is
  stored without.
\<close>

theorem admin_reason_stored_untrimmed_counterexample:
  "b_status reject_padded = Some (js ''rejected'') \<and>
   b_rejectionReason reject_padded = Some (js '' too niche '') \<and>
   admin_set_status sample_lib 50 sample_db id3 reject_padded =
     (Inr doc3_rejected, sample_db\<lparr>models := [doc1, doc2, doc3_rejected]\<rparr>) \<and>
   rejectionReason doc3_rejected = Some (js ''too niche'') \<and>
   rejectionReason doc3_rejected \<noteq> b_rejectionReason reject_padded"
  by (simp add: admin_reject_padded) (simp add: reject_padded_def doc3_rejected_def js_def)

text \<open>
  Claim C3, amended.  A target status outside \<open>pending\<close>, \<open>approved\<close>, \<open>rejected\<close> (or none)
  is answered with the invalid-status validation error, and the target \<open>rejected\<close> with an
  empty or missing reason with the reason-required validation error, in both cases with
  the store unchanged.  For any other request and an id that denotes an ObjectId: when
  no listing has the id the answer is not-found.  When a listing has the id and passes
  the validators of the schema, and the reason sent with the target \<open>rejected\<close> is more
  than white space, the listing is saved with the target status, with the given reason
  trimmed of surrounding white space when the target is \<open>rejected\<close> and without a reason
  for the other targets, and it is the listing stored under the id afterwards.  (What
  becomes of a reason of white space only is left open here.)
\<close>

theorem admin_set_status_outcomes:
  "(b_status body \<notin> Some ` set statuses \<longrightarrow>
      admin_set_status L now s rid body = (Inl InvalidStatus, s)) \<and>
   (b_status body = Some (js ''rejected'') \<and> b_rejectionReason body \<in> {None, Some []} \<longrightarrow>
      admin_set_status L now s rid body = (Inl RejectionReasonRequired, s)) \<and>
   (b_status body = Some st \<and> st \<in> set statuses \<and>
    (st = js ''rejected'' \<longrightarrow> b_rejectionReason body \<notin> {None, Some []}) \<and>
    castObjectId L rid = Some i \<longrightarrow>
      (case find (\<lambda>m. model_id m = i) (models s) of
         None \<Rightarrow> admin_set_status L now s rid body = (Inl NotFound, s)
       | Some m \<Rightarrow>
           validate_paths m \<and>
           (st = js ''rejected'' \<longrightarrow> (\<exists>r. b_rejectionReason body = Some r \<and> trim r \<noteq> [])) \<longrightarrow>
           (\<exists>d. admin_set_status L now s rid body =
                  (Inr d, s\<lparr>models := replace_doc d (models s)\<rparr>) \<and>
                status d = st \<and>
                rejectionReason d =
                  (if st = js ''rejected'' then map_option trim (b_rejectionReason body)
                   else None) \<and>
                find (\<lambda>x. model_id x = i) (replace_doc d (models s)) = Some d)))"
proof (intro conjI impI)
  assume "b_status body \<notin> Some ` set statuses"
  then show "admin_set_status L now s rid body = (Inl InvalidStatus, s)"
    by (auto simp: admin_set_status_def split: option.splits)
next
  assume "b_status body = Some (js ''rejected'') \<and> b_rejectionReason body \<in> {None, Some []}"
  then show "admin_set_status L now s rid body = (Inl RejectionReasonRequired, s)"
    by (auto simp: admin_set_status_def no_reason_def statuses_def)
next
  assume a: "b_status body = Some st \<and> st \<in> set statuses \<and>
    (st = js ''rejected'' \<longrightarrow> b_rejectionReason body \<notin> {None, Some []}) \<and>
    castObjectId L rid = Some i"
  then have nr: "\<not> (st = js ''rejected'' \<and> no_reason (b_rejectionReason body))"
    by (auto simp: no_reason_def)
  show "case find (\<lambda>m. model_id m = i) (models s) of
         None \<Rightarrow> admin_set_status L now s rid body = (Inl NotFound, s)
       | Some m \<Rightarrow>
           validate_paths m \<and>
           (st = js ''rejected'' \<longrightarrow> (\<exists>r. b_rejectionReason body = Some r \<and> trim r \<noteq> [])) \<longrightarrow>
           (\<exists>d. admin_set_status L now s rid body =
                  (Inr d, s\<lparr>models := replace_doc d (models s)\<rparr>) \<and>
                status d = st \<and>
                rejectionReason d =
                  (if st = js ''rejected'' then map_option trim (b_rejectionReason body)
                   else None) \<and>
                find (\<lambda>x. model_id x = i) (replace_doc d (models s)) = Some d)"
  proof (cases "find (\<lambda>m. model_id m = i) (models s)")
    case None
    with a nr show ?thesis
      by (simp add: admin_set_status_def)
  next
    case (Some m)
    then have m: "m \<in> set (models s)" "model_id m = i"
      by (auto simp: find_Some_iff)
    let ?e = "set_status st (b_rejectionReason body) m"
    let ?d = "pre_save L (models s) (name m \<noteq> name ?e) (timestamps now (Some m) ?e)"
    have "\<exists>d. admin_set_status L now s rid body =
                  (Inr d, s\<lparr>models := replace_doc d (models s)\<rparr>) \<and>
                status d = st \<and>
                rejectionReason d =
                  (if st = js ''rejected'' then map_option trim (b_rejectionReason body)
                   else None) \<and>
                find (\<lambda>x. model_id x = i) (replace_doc d (models s)) = Some d"
      if valid: "validate_paths m"
    proof -
      have "validate_paths ?e"
        using a valid by (intro validate_paths_status) simp_all
      then have sv: "save L now (models s) (Some m) ?e = Inr (?d, replace_doc ?d (models s))"
        by (rule save_loaded_ok) simp
      have "admin_set_status L now s rid body =
          (Inr ?d, s\<lparr>models := replace_doc ?d (models s)\<rparr>)"
        using a nr Some sv by (simp add: admin_set_status_def)
      moreover have "status ?d = st"
        "rejectionReason ?d =
           (if st = js ''rejected'' then map_option trim (b_rejectionReason body) else None)"
        by simp_all
      moreover have "find (\<lambda>x. model_id x = i) (replace_doc ?d (models s)) = Some ?d"
        using find_replace_doc [of m "models s" ?d] m by simp
      ultimately show ?thesis
        by blast
    qed
    then show ?thesis
      using Some by (simp only: option.case) blast
  qed
qed

text \<open>An unknown status, a rejection without a reason, a rejection of the pending sample
  listing, an approval of the rejected one, and an id that is not in the store.\<close>

theorem admin_set_status_outcomes_witness:
  "admin_set_status sample_lib 50 sample_db id3 archive_body = (Inl InvalidStatus, sample_db) \<and>
   admin_set_status sample_lib 50 sample_db id3 reject_empty =
     (Inl RejectionReasonRequired, sample_db) \<and>
   validate_paths doc3 \<and> trim (js ''too niche'') = js ''too niche'' \<and>
   admin_set_status sample_lib 50 sample_db id3 reject_niche =
     (Inr doc3_rejected, sample_db\<lparr>models := [doc1, doc2, doc3_rejected]\<rparr>) \<and>
   status doc3_rejected = js ''rejected'' \<and>
   rejectionReason doc3_rejected = Some (js ''too niche'') \<and>
   validate_paths doc2 \<and>
   admin_set_status sample_lib 50 sample_db id2 approve_body =
     (Inr doc2_approved, sample_db\<lparr>models := [doc1, doc2_approved, doc3]\<rparr>) \<and>
   status doc2_approved = js ''approved'' \<and> rejectionReason doc2_approved = None \<and>
   admin_set_status sample_lib 50 sample_db (js ''0000000000000000000000ff'') approve_body =
     (Inl NotFound, sample_db)"
proof -
  have 1: "admin_set_status sample_lib 50 sample_db id3 archive_body = (Inl InvalidStatus, sample_db)"
    using admin_set_status_outcomes [of archive_body sample_lib 50 sample_db id3, THEN conjunct1]
    by (simp add: archive_body_def statuses_def image_iff js_def)
  have 2: "admin_set_status sample_lib 50 sample_db id3 reject_empty =
      (Inl RejectionReasonRequired, sample_db)"
    using admin_set_status_outcomes [of reject_empty sample_lib 50 sample_db id3,
        THEN conjunct2, THEN conjunct1]
    by (simp add: reject_empty_def)
  have t: "trim (js ''too niche'') = js ''too niche''"
    by code_simp
  have 3: "status doc3_rejected = js ''rejected'' \<and>
      rejectionReason doc3_rejected = Some (js ''too niche'')"
  proof -
    have h: "b_status reject_niche = Some (js ''rejected'') \<and> js ''rejected'' \<in> set statuses \<and>
        (js ''rejected'' = js ''rejected'' \<longrightarrow> b_rejectionReason reject_niche \<notin> {None, Some []}) \<and>
        castObjectId sample_lib id3 = Some 3"
      by (simp add: reject_niche_def statuses_def cast_id3) (simp add: js_def)
    have g: "validate_paths doc3 \<and>
        (js ''rejected'' = js ''rejected'' \<longrightarrow>
           (\<exists>r. b_rejectionReason reject_niche = Some r \<and> trim r \<noteq> []))"
      by (simp add: sample_docs_valid reject_niche_def t) (simp add: js_def)
    from admin_set_status_outcomes [of reject_niche sample_lib 50 sample_db id3 "js ''rejected''" 3,
        THEN conjunct2, THEN conjunct2, rule_format, OF h]
    have "validate_paths doc3 \<and>
        (js ''rejected'' = js ''rejected'' \<longrightarrow>
           (\<exists>r. b_rejectionReason reject_niche = Some r \<and> trim r \<noteq> [])) \<longrightarrow>
        (\<exists>d. admin_set_status sample_lib 50 sample_db id3 reject_niche =
                (Inr d, sample_db\<lparr>models := replace_doc d (models sample_db)\<rparr>) \<and>
              status d = js ''rejected'' \<and>
              rejectionReason d = map_option trim (b_rejectionReason reject_niche) \<and>
              find (\<lambda>x. model_id x = 3) (replace_doc d (models sample_db)) = Some d)"
      by (simp add: find_sample)
    from this [rule_format, OF g]
    obtain d where d: "admin_set_status sample_lib 50 sample_db id3 reject_niche =
        (Inr d, sample_db\<lparr>models := replace_doc d (models sample_db)\<rparr>)"
      and sd: "status d = js ''rejected''"
        "rejectionReason d = map_option trim (b_rejectionReason reject_niche)"
      by blast
    from d have "d = doc3_rejected"
      by (simp add: admin_reject_doc3)
    with sd show ?thesis
      by (simp add: reject_niche_def t)
  qed
  have 4: "status doc2_approved = js ''approved'' \<and> rejectionReason doc2_approved = None"
  proof -
    have ne: "js ''approved'' \<noteq> js ''rejected''"
      by (simp add: js_def)
    have h: "b_status approve_body = Some (js ''approved'') \<and> js ''approved'' \<in> set statuses \<and>
        (js ''approved'' = js ''rejected'' \<longrightarrow> b_rejectionReason approve_body \<notin> {None, Some []}) \<and>
        castObjectId sample_lib id2 = Some 2"
      by (simp add: approve_body_def statuses_def cast_id2 ne)
    have g: "validate_paths doc2 \<and>
        (js ''approved'' = js ''rejected'' \<longrightarrow>
           (\<exists>r. b_rejectionReason approve_body = Some r \<and> trim r \<noteq> []))"
      by (simp add: sample_docs_valid ne)
    from admin_set_status_outcomes [of approve_body sample_lib 50 sample_db id2 "js ''approved''" 2,
        THEN conjunct2, THEN conjunct2, rule_format, OF h]
    have "validate_paths doc2 \<and>
        (js ''approved'' = js ''rejected'' \<longrightarrow>
           (\<exists>r. b_rejectionReason approve_body = Some r \<and> trim r \<noteq> [])) \<longrightarrow>
        (\<exists>d. admin_set_status sample_lib 50 sample_db id2 approve_body =
                (Inr d, sample_db\<lparr>models := replace_doc d (models sample_db)\<rparr>) \<and>
              status d = js ''approved'' \<and>
              rejectionReason d = None \<and>
              find (\<lambda>x. model_id x = 2) (replace_doc d (models sample_db)) = Some d)"
      by (simp add: find_sample ne)
    from this [rule_format, OF g]
    obtain d where d: "admin_set_status sample_lib 50 sample_db id2 approve_body =
        (Inr d, sample_db\<lparr>models := replace_doc d (models sample_db)\<rparr>)"
      and sd: "status d = js ''approved''" "rejectionReason d = None"
      by blast
    from d have "d = doc2_approved"
      by (simp add: admin_approve_doc2)
    with sd show ?thesis
      by simp
  qed
  have 5: "admin_set_status sample_lib 50 sample_db (js ''0000000000000000000000ff'') approve_body =
      (Inl NotFound, sample_db)"
  proof -
    have ne: "js ''approved'' \<noteq> js ''rejected''"
      by (simp add: js_def)
    have h: "b_status approve_body = Some (js ''approved'') \<and> js ''approved'' \<in> set statuses \<and>
        (js ''approved'' = js ''rejected'' \<longrightarrow> b_rejectionReason approve_body \<notin> {None, Some []}) \<and>
        castObjectId sample_lib (js ''0000000000000000000000ff'') = Some 255"
      by (simp add: approve_body_def statuses_def cast_absent ne)
    from admin_set_status_outcomes [of approve_body sample_lib 50 sample_db
        "js ''0000000000000000000000ff''" "js ''approved''" 255,
        THEN conjunct2, THEN conjunct2, rule_format, OF h]
    show ?thesis
      by (simp add: find_sample)
  qed
  from 1 2 3 4 5 t show ?thesis
    by (simp add: admin_reject_doc3 admin_approve_doc2 sample_docs_valid)
qed

section \<open>The slug of a new or renamed listing\<close>

text \<open>
  Claim C4.  The listing a creation persists, and the listing an update persists when
  the name has changed, carry the slug of the specification's algorithm: the persisted
  name lower-cased, its maximal runs of characters outside \<open>[a-z0-9]\<close> replaced by one
  hyphen each, the hyphens at the two ends stripped, and the base slug so obtained
  probed against the slugs of the listings with another id.
\<close>

theorem slug_on_create_and_rename:
  "(create_model L now new_id caller s body = (Inr d, s') \<longrightarrow>
      slug d = Some (spec_slug L (other_slugs (models s) (model_id d)) (name d)) \<and>
      d \<in> set (models s')) \<and>
   (distinct (map model_id (models s)) \<and> m \<in> set (models s) \<and>
    castObjectId L rid = Some (model_id m) \<and> uploadedBy m = caller \<and>
    update_model L now caller s rid body = (Inr e, s'') \<and> name e \<noteq> name m \<longrightarrow>
      slug e = Some (spec_slug L (other_slugs (models s) (model_id e)) (name e)) \<and>
      find (\<lambda>x. model_id x = model_id m) (models s'') = Some e)"
proof (intro conjI impI)
  assume c: "create_model L now new_id caller s body = (Inr d, s')"
  then obtain v where "save L now (models s) None (new_doc new_id caller v) = Inr (d, models s')"
    by (rule create_success)
  note sv = save_new [OF this]
  let ?x = "timestamps now None (new_doc new_id caller v)"
  have "slug (pre_save L (models s) True ?x) =
      Some (spec_slug L (other_slugs (models s) (model_id ?x)) (name ?x))"
    by (rule pre_save_slug) simp
  then show "slug d = Some (spec_slug L (other_slugs (models s) (model_id d)) (name d))"
    by (simp add: sv(1))
  show "d \<in> set (models s')"
    by (simp add: sv(2))
next
  assume a: "distinct (map model_id (models s)) \<and> m \<in> set (models s) \<and>
    castObjectId L rid = Some (model_id m) \<and> uploadedBy m = caller \<and>
    update_model L now caller s rid body = (Inr e, s'') \<and> name e \<noteq> name m"
  then obtain v where
    "save L now (models s) (Some m) (reset_rejected (assign m v)) = Inr (e, models s'')"
    by (elim conjE update_success)
  note sv = save_loaded [OF this]
  let ?x = "timestamps now (Some m) (reset_rejected (assign m v))"
  let ?b = "name m \<noteq> name (reset_rejected (assign m v))"
  have e: "e = pre_save L (models s) ?b ?x"
    by (rule sv(1))
  have ne: "name e = name (reset_rejected (assign m v))" and ie: "model_id e = model_id m"
    by (simp_all add: e)
  with a have mod: "?b"
    by auto
  then have "slug (pre_save L (models s) ?b ?x) =
      Some (spec_slug L (other_slugs (models s) (model_id ?x)) (name ?x))"
    by (intro pre_save_slug disjI1)
  then show "slug e = Some (spec_slug L (other_slugs (models s) (model_id e)) (name e))"
    unfolding e by simp
  from a ie show "find (\<lambda>x. model_id x = model_id m) (models s'') = Some e"
    unfolding sv(2) using find_replace_doc [of m "models s" e] by simp
qed

text \<open>The second user creates a listing named like the first user's "Bot X", and renames
  the pending sample listing.\<close>

theorem slug_on_create_and_rename_witness:
  "create_model sample_lib 60 4 8 sample_db botx_body = (Inr doc4, db4) \<and>
   slug doc4 = Some (js ''bot-x-1'') \<and>
   slug doc4 =
     Some (spec_slug sample_lib (other_slugs (models sample_db) (model_id doc4)) (name doc4)) \<and>
   doc4 \<in> set (models db4) \<and>
   update_model sample_lib 50 8 sample_db id3 sample_body =
     (Inr doc3_edited, sample_db\<lparr>models := [doc1, doc2, doc3_edited]\<rparr>) \<and>
   name doc3_edited \<noteq> name doc3 \<and>
   slug doc3_edited = Some (js ''painter-2'') \<and>
   slug doc3_edited =
     Some (spec_slug sample_lib (other_slugs (models sample_db) (model_id doc3_edited))
       (name doc3_edited))"
proof -
  note c = slug_on_create_and_rename
    [of sample_lib 60 4 8 sample_db botx_body doc4 db4, THEN conjunct1, rule_format, OF create_doc4]
  have n: "name doc3_edited \<noteq> name doc3"
    by (simp add: doc3_edited_def doc3_def default_doc_def js_def)
  have "slug doc3_edited =
      Some (spec_slug sample_lib (other_slugs (models sample_db) (model_id doc3_edited))
        (name doc3_edited))"
    using slug_on_create_and_rename
      [of sample_lib 50 4 8 sample_db sample_body doc4 db4 doc3 id3 doc3_edited
        "sample_db\<lparr>models := [doc1, doc2, doc3_edited]\<rparr>", THEN conjunct2]
      sample_distinct doc3_facts cast_id3 update_doc3 n
    by simp
  moreover have "slug doc4 = Some (js ''bot-x-1'')" "slug doc3_edited = Some (js ''painter-2'')"
    by (simp_all add: doc4_def doc3_edited_def)
  ultimately show ?thesis
    using c n by (simp add: create_doc4 update_doc3)
qed

section \<open>The filter of the public query\<close>

text \<open>
  Claim C5, as stated, fails for the category filter \<open>all\<close>: the route leaves that
  filter out, so the query returns an approved listing of the category \<open>chatbots\<close>.
\<close>

theorem category_all_counterexample:
  "q_category all_query = Some (js ''all'') \<and>
   list_models sample_lib sample_db all_query = Inr page1 \<and>
   map category (pg_models page1) = [js ''chatbots''] \<and> js ''chatbots'' \<noteq> js ''all''"
  by (simp add: list_all_query) (simp add: all_query_def page1_def doc1_public_def
      map_uploadedBy_def doc1_def default_doc_def js_def)

text \<open>
  Claim C5, amended.  For a query whose search term, if any, has no regular-expression
  metacharacter.  With page 0 and a limit other than 0 the query is answered with the
  internal error.  Otherwise it answers with a page; \<open>totalModels\<close> counts the stored
  listings that satisfy the condition \<open>query_match\<close> (the status is \<open>approved\<close>; a category
  filter that is given and is not \<open>all\<close> is the category, and likewise for pricing; a
  search term that is given occurs, in any case, in the name, in the short description or
  in a tag), and the models of the page are the window of those listings in the order of
  the sort, each in its public view.
\<close>

theorem public_query_results:
  assumes "\<forall>t. q_search q = Some t \<longrightarrow> is_literal t"
  shows "(limit_of q \<noteq> 0 \<and> page_of q = 0 \<longrightarrow> list_models L s q = Inl InternalServerError) \<and>
     (limit_of q = 0 \<or> 1 \<le> page_of q \<longrightarrow>
        (\<exists>pg. list_models L s q = Inr pg \<and>
           totalModels pg = length (filter (query_match L q) (models s)) \<and>
           pg_models pg = map (public_view (users s))
             (window q (sort_key public_order (filter (query_match L q) (models s))))))"
proof (intro conjI impI)
  assume "limit_of q \<noteq> 0 \<and> page_of q = 0"
  then show "list_models L s q = Inl InternalServerError"
    using list_models_page0 [OF assms] by blast
next
  assume p: "limit_of q = 0 \<or> 1 \<le> page_of q"
  show "\<exists>pg. list_models L s q = Inr pg \<and>
           totalModels pg = length (filter (query_match L q) (models s)) \<and>
           pg_models pg = map (public_view (users s))
             (window q (sort_key public_order (filter (query_match L q) (models s))))"
    unfolding list_models_literal [OF assms p] by simp
qed

text \<open>A search for "REASON" among the chatbots, with the pricing filter \<open>all\<close>, finds the
  approved sample listing by its tag "reasoning"; the same search for page 0 is answered
  with the internal error.\<close>

theorem public_query_results_witness:
  "is_literal (js ''REASON'') \<and>
   list_models sample_lib sample_db (search_query (js ''REASON'')) = Inr page1 \<and>
   totalModels page1 =
     length (filter (query_match sample_lib (search_query (js ''REASON''))) (models sample_db)) \<and>
   pg_models page1 = map (public_view (users sample_db))
     (window (search_query (js ''REASON''))
        (sort_key public_order
           (filter (query_match sample_lib (search_query (js ''REASON''))) (models sample_db)))) \<and>
   totalModels page1 = 1 \<and>
   list_models sample_lib sample_db ((search_query (js ''REASON''))\<lparr>q_page := Some 0\<rparr>) =
     Inl InternalServerError"
proof -
  let ?q = "search_query (js ''REASON'')"
  have lit: "is_literal (js ''REASON'')"
    by code_simp
  have l: "\<forall>t. q_search ?q = Some t \<longrightarrow> is_literal t"
    by (simp add: search_query_def lit)
  have l0: "\<forall>t. q_search (?q\<lparr>q_page := Some 0\<rparr>) = Some t \<longrightarrow> is_literal t"
    by (simp add: search_query_def lit)
  have p: "limit_of ?q = 0 \<or> 1 \<le> page_of ?q"
    by (simp add: search_query_def page_of_def)
  have p0: "limit_of (?q\<lparr>q_page := Some 0\<rparr>) \<noteq> 0 \<and> page_of (?q\<lparr>q_page := Some 0\<rparr>) = 0"
    by (simp add: search_query_def page_of_def limit_of_def)
  from public_query_results [OF l, of sample_lib sample_db, THEN conjunct2, rule_format, OF p]
  have "totalModels page1 = length (filter (query_match sample_lib ?q) (models sample_db)) \<and>
     pg_models page1 = map (public_view (users sample_db))
       (window ?q (sort_key public_order (filter (query_match sample_lib ?q) (models sample_db))))"
    by (simp add: list_search_reason)
  moreover from public_query_results [OF l0, of sample_lib sample_db, THEN conjunct1, rule_format, OF p0]
  have "list_models sample_lib sample_db (?q\<lparr>q_page := Some 0\<rparr>) = Inl InternalServerError" .
  moreover have "totalModels page1 = 1"
    by (simp add: page1_def)
  ultimately show ?thesis
    using lit by (simp add: list_search_reason)
qed

section \<open>The page size\<close>

text \<open>
  Claim C6.  The claim is the documented behaviour (README: "limit - Items per page
  (default: 20, max: 100)"), and the route has no such maximum: asked for a page of 101
  entries of a store with 101 approved listings, it returns all 101 in one page and
  reports a single page, where a page size clamped to 100 gives 100 entries and two
  pages.
\<close>

theorem limit_not_clamped:
  "(case list_models sample_lib (many_db 101) (limit_query 101) of
      Inl e \<Rightarrow> False
    | Inr pg \<Rightarrow> length (pg_models pg) = 101 \<and> totalModels pg = 101 \<and>
        totalPages pg = Some 1 \<and> \<not> hasNext pg)"
  by (simp add: list_many) (simp add: many_db_def)

section \<open>What the listings show\<close>

text \<open>
  Claim C7, as stated, fails for the owner's listing: that query deselects \<open>uploadedBy\<close>
  and nothing else, so the rejected sample listing comes back with its rejection reason.
\<close>

theorem my_models_shows_reason_counterexample:
  "my_models 7 sample_db = [map_uploadedBy (\<lambda>_. ()) doc2, map_uploadedBy (\<lambda>_. ()) doc1] \<and>
   map rejectionReason (my_models 7 sample_db) = [Some (js ''too niche''), None]"
  by (simp add: my_models_sample doc2_facts) (simp add: doc1_def default_doc_def)

text \<open>
  Claim C7, amended.  Every item of the public collection listing is without a
  rejection reason, and its owner, where resolved, has no path but \<open>_id\<close>, \<open>firstName\<close>
  and \<open>lastName\<close> (so neither the email nor the password).  Every item of the owner's
  listing is one of the caller's stored listings without \<open>uploadedBy\<close> and with the
  status and rejection reason as stored, and every stored listing of the caller is
  among the items.
\<close>

theorem query_projections:
  "(list_models L s q = Inr pg \<longrightarrow>
      (\<forall>item \<in> set (pg_models pg).
         rejectionReason item = None \<and>
         (\<forall>owner. uploadedBy item = Some owner \<longrightarrow>
            fst ` set owner \<subseteq> {''_id'', ''firstName'', ''lastName''}))) \<and>
   (\<forall>item \<in> set (my_models caller s).
      \<exists>m \<in> set (models s). uploadedBy m = caller \<and> model_id item = model_id m \<and>
        status item = status m \<and> rejectionReason item = rejectionReason m) \<and>
   (\<forall>m \<in> set (models s). uploadedBy m = caller \<longrightarrow>
      map_uploadedBy (\<lambda>_. ()) m \<in> set (my_models caller s))"
proof (intro conjI impI ballI allI)
  fix item
  assume "list_models L s q = Inr pg" and i: "item \<in> set (pg_models pg)"
  then obtain xs where "pg_models pg = map (public_view (users s)) xs"
    using list_models_items by blast
  with i obtain m where m: "item = public_view (users s) m"
    by auto
  show "rejectionReason item = None"
    by (simp add: m public_view_reason)
  fix owner
  assume "uploadedBy item = Some owner"
  then have "populate (users s) [''firstName'', ''lastName''] (uploadedBy m) = Some owner"
    by (simp add: m public_view_owner)
  from populate_paths [OF this] show "fst ` set owner \<subseteq> {''_id'', ''firstName'', ''lastName''}"
    by auto
next
  fix item
  assume "item \<in> set (my_models caller s)"
  then obtain m where "m \<in> set (models s)" "uploadedBy m = caller"
    "item = map_uploadedBy (\<lambda>_. ()) m"
    by (auto simp: my_models_set)
  then show "\<exists>m \<in> set (models s). uploadedBy m = caller \<and> model_id item = model_id m \<and>
        status item = status m \<and> rejectionReason item = rejectionReason m"
    by auto
next
  fix m
  assume "m \<in> set (models s)" "uploadedBy m = caller"
  then show "map_uploadedBy (\<lambda>_. ()) m \<in> set (my_models caller s)"
    by (auto simp: my_models_set)
qed

text \<open>The public listing of the sample store, and the first user's own listing.\<close>

theorem query_projections_witness:
  "list_models sample_lib sample_db all_query = Inr page1 \<and>
   pg_models page1 = [doc1_public] \<and>
   rejectionReason doc1_public = None \<and>
   uploadedBy doc1_public =
     Some [(''_id'', UId 7), (''firstName'', UStr (js ''Alice'')), (''lastName'', UStr (js ''Ames''))] \<and>
   fst ` set [(''_id'', UId 7), (''firstName'', UStr (js ''Alice'')), (''lastName'', UStr (js ''Ames''))]
     \<subseteq> {''_id'', ''firstName'', ''lastName''} \<and>
   doc2 \<in> set (models sample_db) \<and> uploadedBy doc2 = 7 \<and>
   map_uploadedBy (\<lambda>_. ()) doc2 \<in> set (my_models 7 sample_db) \<and>
   rejectionReason (map_uploadedBy (\<lambda>_. ()) doc2) = Some (js ''too niche'')"
proof -
  note t = query_projections [of sample_lib sample_db all_query page1 7]
  have items: "pg_models page1 = [doc1_public]"
    by (simp add: page1_def)
  have owner: "uploadedBy doc1_public =
      Some [(''_id'', UId 7), (''firstName'', UStr (js ''Alice'')), (''lastName'', UStr (js ''Ames''))]"
    by (simp add: doc1_public_def map_uploadedBy_def)
  from t [THEN conjunct1, rule_format, OF list_all_query, of doc1_public]
  have a: "rejectionReason doc1_public = None \<and>
      fst ` set [(''_id'', UId 7), (''firstName'', UStr (js ''Alice'')), (''lastName'', UStr (js ''Ames''))]
        \<subseteq> {''_id'', ''firstName'', ''lastName''}"
    using items owner by simp
  from t [THEN conjunct2, THEN conjunct2, rule_format, OF doc2_facts(1) doc2_facts(3)]
  have b: "map_uploadedBy (\<lambda>_. ()) doc2 \<in> set (my_models 7 sample_db)" .
  from a b show ?thesis
    by (simp add: list_all_query items owner doc2_facts)
qed

section \<open>Requests by someone who is not the owner\<close>

text \<open>
  Claim C8.  An update or a delete of a stored listing by a caller who is not its owner
  is answered with the not-found error and changes nothing; a request for an id that no
  listing has gets the very same answer, so the answer does not tell the two apart.
\<close>

theorem non_owner_not_found:
  assumes "distinct (map model_id (models s))"
    and "m \<in> set (models s)"
    and "castObjectId L rid = Some (model_id m)"
    and "uploadedBy m \<noteq> caller"
  shows "update_model L now caller s rid body = (Inl NotFound, s) \<and>
         delete_model L caller s rid = (Inl NotFound, s) \<and>
         (\<forall>rid' j. castObjectId L rid' = Some j \<and> j \<notin> model_id ` set (models s) \<longrightarrow>
            update_model L now caller s rid' body = (Inl NotFound, s) \<and>
            delete_model L caller s rid' = (Inl NotFound, s))"
proof -
  have "find (\<lambda>x. model_id x = model_id m \<and> uploadedBy x = caller) (models s) = None"
    using assms(1,2,4) by (rule_tac find_not_owned) simp_all
  with assms(3) have here: "update_model L now caller s rid body = (Inl NotFound, s)"
    "delete_model L caller s rid = (Inl NotFound, s)"
    by (simp_all add: update_model_def delete_model_def)
  have absent: "update_model L now caller s rid' body = (Inl NotFound, s) \<and>
      delete_model L caller s rid' = (Inl NotFound, s)"
    if "castObjectId L rid' = Some j" and "j \<notin> model_id ` set (models s)" for rid' j
  proof -
    from that(2) have "find (\<lambda>x. model_id x = j \<and> uploadedBy x = caller) (models s) = None"
      by (auto simp: find_None_iff)
    with that(1) show ?thesis
      by (simp add: update_model_def delete_model_def)
  qed
  from here absent show ?thesis by blast
qed

text \<open>The second user asks for the first user's approved listing, and for an id that is
  nowhere in the store.\<close>

theorem non_owner_not_found_witness:
  "update_model sample_lib 50 8 sample_db id1 sample_body = (Inl NotFound, sample_db) \<and>
   delete_model sample_lib 8 sample_db id1 = (Inl NotFound, sample_db) \<and>
   update_model sample_lib 50 8 sample_db (js ''0000000000000000000000ff'') sample_body =
     (Inl NotFound, sample_db) \<and>
   delete_model sample_lib 8 sample_db (js ''0000000000000000000000ff'') = (Inl NotFound, sample_db)"
proof -
  have "update_model sample_lib 50 8 sample_db id1 sample_body = (Inl NotFound, sample_db) \<and>
         delete_model sample_lib 8 sample_db id1 = (Inl NotFound, sample_db) \<and>
         (\<forall>rid' j. castObjectId sample_lib rid' = Some j \<and> j \<notin> model_id ` set (models sample_db) \<longrightarrow>
            update_model sample_lib 50 8 sample_db rid' sample_body = (Inl NotFound, sample_db) \<and>
            delete_model sample_lib 8 sample_db rid' = (Inl NotFound, sample_db))"
    by (rule non_owner_not_found [of sample_db doc1])
      (simp_all add: sample_distinct cast_id1 doc1_facts)
  moreover have "castObjectId sample_lib (js ''0000000000000000000000ff'') = Some 255 \<and>
      255 \<notin> model_id ` set (models sample_db)"
    by (simp add: cast_absent sample_ids)
  ultimately show ?thesis by blast
qed

section \<open>Names without a letter or a digit\<close>

text \<open>
  Claim C9.  The claim is what the hook is there for (README: "Models are automatically
  assigned slugs based on their names"; the hook itself takes an empty slug for a missing
  one), and the hook misses the names without a letter or a digit, which payload
  validation accepts: the name "!!!" is persisted with the empty slug, and the next
  such name, "???", with the slug "-1"; neither has the shape.
\<close>

theorem empty_slug_persisted:
  "create_model sample_lib 60 4 8 sample_db bang_body = (Inr bang_doc, db_bang) \<and>
   bang_doc \<in> set (models db_bang) \<and> slug bang_doc = Some [] \<and> \<not> slug_shape [] \<and>
   create_model sample_lib 70 5 7 db_bang query_body = (Inr query_doc, db_query) \<and>
   query_doc \<in> set (models db_query) \<and> slug query_doc = Some (js ''-1'') \<and> \<not> slug_shape (js ''-1'')"
  by (simp add: create_bang create_query)
    (simp add: db_bang_def db_query_def bang_doc_def query_doc_def slug_shape_def
      is_slug_char_def is_lower_def is_digit_def js_def)

section \<open>Ids that are not ObjectIds\<close>

text \<open>
  Claim C10.  For an id jsstring that does not denote an ObjectId, the public fetch
  answers with the invalid-id validation error, while the update and the delete hand the
  jsstring to the lookup, whose cast throws: both are answered with the internal error of
  the catch-all, and nothing is changed.
\<close>

theorem malformed_id_internal_error:
  assumes "castObjectId L rid = None"
  shows "get_model L s rid = Inl InvalidIdFormat \<and>
         update_model L now caller s rid body = (Inl InternalServerError, s) \<and>
         delete_model L caller s rid = (Inl InternalServerError, s)"
  using assms by (simp add: get_model_def update_model_def delete_model_def)

text \<open>The jsstring "xyz" is no ObjectId.\<close>

theorem malformed_id_internal_error_witness:
  "castObjectId sample_lib (js ''xyz'') = None \<and>
   get_model sample_lib sample_db (js ''xyz'') = Inl InvalidIdFormat \<and>
   update_model sample_lib 50 7 sample_db (js ''xyz'') sample_body = (Inl InternalServerError, sample_db) \<and>
   delete_model sample_lib 7 sample_db (js ''xyz'') = (Inl InternalServerError, sample_db)"
proof -
  have c: "castObjectId sample_lib (js ''xyz'') = None"
    by code_simp
  from malformed_id_internal_error [OF c] c show ?thesis
    by blast
qed

end
